theory Spec2Isabelle
  imports Main "HOL-Library.Sublist" "HOL-Library.AList"
begin

section \<open>Import maps and the specifier replacer\<close>

text \<open>
  An import map is \<^verbatim>\<open>{ imports: Record<string, string>, scopes?: Record<string, Imports> }\<close>.
  A JavaScript object is kept as the list of its entries in \<^verbatim>\<open>Object.entries\<close> order
  (insertion order for the non-numeric keys an import map has); strings are lists of
  code units, \<^verbatim>\<open>s.startsWith(p)\<close> is \<open>prefix p s\<close> and \<^verbatim>\<open>s.slice(n)\<close> is \<open>drop n s\<close>.
\<close>

type_synonym Imports = "(string \<times> string) list"

type_synonym Scopes = "(string \<times> Imports) list"

record ImportMap =
  imports' :: Imports
  scopes :: "Scopes option"

text \<open>
  The inner \<^verbatim>\<open>for (const [key, value] of entries)\<close> loop of the replacer; it returns at the
  first entry whose key equals the specifier or is followed by a slash in it.
\<close>

fun matchEntries :: "Imports \<Rightarrow> string \<Rightarrow> string option" where
  "matchEntries [] specifier = None"
| "matchEntries ((key, val) # rest) specifier =
     (if specifier = key \<or> prefix (key @ ''/'') specifier
      then Some (val @ drop (length key) specifier)
      else matchEntries rest specifier)"

text \<open>The loop over the scopes: only scopes that prefix the requesting module's URL are searched.\<close>

fun matchScopes :: "string \<Rightarrow> Scopes \<Rightarrow> string \<Rightarrow> string option" where
  "matchScopes urlString [] specifier = None"
| "matchScopes urlString ((scope, entries) # rest) specifier =
     (if prefix scope urlString
      then (case matchEntries entries specifier of
              Some r \<Rightarrow> Some r
            | None \<Rightarrow> matchScopes urlString rest specifier)
      else matchScopes urlString rest specifier)"

text \<open>
  The closure \<^verbatim>\<open>#createOptimizedReplacer\<close> returns, applied to a specifier: the direct
  entries, then (when there are scopes) the scopes, then the specifier itself.
\<close>

definition createOptimizedReplacer :: "string \<Rightarrow> Imports \<Rightarrow> Scopes \<Rightarrow> string \<Rightarrow> string" where
  "createOptimizedReplacer urlString importEntries scopeEntries specifier =
     (case matchEntries importEntries specifier of
        Some r \<Rightarrow> r
      | None \<Rightarrow>
          (if scopeEntries \<noteq> []
           then (case matchScopes urlString scopeEntries specifier of
                   Some r \<Rightarrow> r
                 | None \<Rightarrow> specifier)
           else specifier))"

text \<open>The test the loop makes on one entry, named for the statements about it.\<close>

definition keyMatches :: "string \<Rightarrow> string \<times> string \<Rightarrow> bool" where
  "keyMatches specifier entry = (specifier = fst entry \<or> prefix (fst entry @ ''/'') specifier)"


section \<open>Regular expressions of the two quick checks\<close>

text \<open>
  \<^verbatim>\<open>#hasImports\<close> and \<^verbatim>\<open>#hasImportMetaUrl\<close> are \<^verbatim>\<open>RegExp.test\<close> calls. The two patterns use
  only literals, classes, alternation and repetition, so they are kept as regular
  expressions and run by derivatives; \<^verbatim>\<open>test\<close> looks for a match starting at any position.
\<close>

datatype regex =
  Never | Empty | Class "char \<Rightarrow> bool" | Alt regex regex | Seq regex regex | Star regex

fun nullable :: "regex \<Rightarrow> bool" where
  "nullable Never = False"
| "nullable Empty = True"
| "nullable (Class p) = False"
| "nullable (Alt r s) = (nullable r \<or> nullable s)"
| "nullable (Seq r s) = (nullable r \<and> nullable s)"
| "nullable (Star r) = True"

fun rxAlt :: "regex \<Rightarrow> regex \<Rightarrow> regex" where
  "rxAlt Never s = s"
| "rxAlt r Never = r"
| "rxAlt r s = Alt r s"

fun rxSeq :: "regex \<Rightarrow> regex \<Rightarrow> regex" where
  "rxSeq Never s = Never"
| "rxSeq r Never = Never"
| "rxSeq Empty s = s"
| "rxSeq r s = Seq r s"

fun deriv :: "char \<Rightarrow> regex \<Rightarrow> regex" where
  "deriv c Never = Never"
| "deriv c Empty = Never"
| "deriv c (Class p) = (if p c then Empty else Never)"
| "deriv c (Alt r s) = rxAlt (deriv c r) (deriv c s)"
| "deriv c (Seq r s) = rxAlt (rxSeq (deriv c r) s) (if nullable r then deriv c s else Never)"
| "deriv c (Star r) = rxSeq (deriv c r) (Star r)"

fun matchPrefix :: "regex \<Rightarrow> string \<Rightarrow> bool" where
  "matchPrefix r [] = nullable r"
| "matchPrefix r (c # cs) = (nullable r \<or> matchPrefix (deriv c r) cs)"

fun rxLit :: "string \<Rightarrow> regex" where
  "rxLit [] = Empty"
| "rxLit (c # cs) = Seq (Class (\<lambda>x. x = c)) (rxLit cs)"

definition rxPlus :: "regex \<Rightarrow> regex" where
  "rxPlus r = Seq r (Star r)"

text \<open>
  \<^verbatim>\<open>\s\<close>, \<^verbatim>\<open>.\<close> and \<^verbatim>\<open>\w\<close> on the code units below 256 (the further Unicode spaces and
  line separators of a JavaScript string have no \<open>char\<close>).
\<close>

definition isSpace :: "char \<Rightarrow> bool" where
  "isSpace c = (c \<in> set [CHR 0x09, CHR 0x0A, CHR 0x0B, CHR 0x0C, CHR 0x0D, CHR 0x20, CHR 0xA0])"

definition notLineEnd :: "char \<Rightarrow> bool" where
  "notLineEnd c = (c \<noteq> CHR 0x0A \<and> c \<noteq> CHR 0x0D)"

definition isWordChar :: "char \<Rightarrow> bool" where
  "isWordChar c =
     (c \<in> set ''abcdefghijklmnopqrstuvwxyzABCDEFGHIJKLMNOPQRSTUVWXYZ0123456789_'')"

text \<open>\<^verbatim>\<open>/(?:import|export)\s+(?:.*\s+from\s+|)['"]/m\<close>\<close>

definition importRegex :: regex where
  "importRegex =
     Seq (Alt (rxLit ''import'') (rxLit ''export''))
       (Seq (rxPlus (Class isSpace))
         (Seq (Alt (Seq (Star (Class notLineEnd))
                       (Seq (rxPlus (Class isSpace))
                          (Seq (rxLit ''from'') (rxPlus (Class isSpace)))))
                   Empty)
              (Class (\<lambda>c. c = CHR 0x27 \<or> c = CHR 0x22))))"

text \<open>\<^verbatim>\<open>/\bimport\s*\.\s*meta\s*\.\s*(url|filename|dirname|resolve\s*\()/\<close>, after its \<^verbatim>\<open>\b\<close>\<close>

definition importMetaRegex :: regex where
  "importMetaRegex =
     Seq (rxLit ''import'')
       (Seq (Star (Class isSpace))
         (Seq (rxLit ''.'')
           (Seq (Star (Class isSpace))
             (Seq (rxLit ''meta'')
               (Seq (Star (Class isSpace))
                 (Seq (rxLit ''.'')
                   (Seq (Star (Class isSpace))
                     (Alt (rxLit ''url'')
                       (Alt (rxLit ''filename'')
                         (Alt (rxLit ''dirname'')
                           (Seq (rxLit ''resolve'')
                              (Seq (Star (Class isSpace)) (rxLit ''('')))))))))))))"

fun regexTest :: "regex \<Rightarrow> string \<Rightarrow> bool" where
  "regexTest r [] = matchPrefix r []"
| "regexTest r (c # cs) = (matchPrefix r (c # cs) \<or> regexTest r cs)"

text \<open>
  The same search for a pattern that starts with \<^verbatim>\<open>\b\<close> and then a word character: a
  match may start only where the code unit before it is not a word character.
\<close>

fun regexTestAtBoundary :: "regex \<Rightarrow> char option \<Rightarrow> string \<Rightarrow> bool" where
  "regexTestAtBoundary r prev [] = False"
| "regexTestAtBoundary r prev (c # cs) =
     (((case prev of None \<Rightarrow> True | Some p \<Rightarrow> \<not> isWordChar p) \<and> matchPrefix r (c # cs))
      \<or> regexTestAtBoundary r (Some c) cs)"

definition hasImports :: "string \<Rightarrow> bool" where
  "hasImports code = regexTest importRegex code"

definition hasImportMetaUrl :: "string \<Rightarrow> bool" where
  "hasImportMetaUrl code = regexTestAtBoundary importMetaRegex None code"

section \<open>Classifying specifiers\<close>

definition isRelativeOrFileUrl :: "string \<Rightarrow> bool" where
  "isRelativeOrFileUrl specifier =
     ((case specifier of [] \<Rightarrow> False | firstChar # _ \<Rightarrow> firstChar = CHR ''.'' \<or> firstChar = CHR ''/'')
      \<or> prefix ''file://'' specifier)"

definition isHttpUrl :: "string \<Rightarrow> bool" where
  "isHttpUrl specifier = (prefix ''http://'' specifier \<or> prefix ''https://'' specifier)"

definition isJsr :: "string \<Rightarrow> bool" where
  "isJsr specifier = prefix ''jsr:'' specifier"

definition isNpm :: "string \<Rightarrow> bool" where
  "isNpm specifier = prefix ''npm:'' specifier"

text \<open>The case-insensitive tests of \<^verbatim>\<open>replace_imports.ts\<close>: \<^verbatim>\<open>/^(https?:|data:)/i\<close> and \<^verbatim>\<open>/^(jsr:|npm:)/i\<close>.\<close>

definition lowerAscii :: "char \<Rightarrow> char" where
  "lowerAscii c =
     (case map_of (zip ''ABCDEFGHIJKLMNOPQRSTUVWXYZ'' ''abcdefghijklmnopqrstuvwxyz'') c of
        Some l \<Rightarrow> l
      | None \<Rightarrow> c)"

definition startsWithIgnoreCase :: "string \<Rightarrow> string \<Rightarrow> bool" where
  "startsWithIgnoreCase p s = prefix p (map lowerAscii s)"

definition isRemoteSpecifier :: "string \<Rightarrow> bool" where
  "isRemoteSpecifier specifier =
     (startsWithIgnoreCase ''http:'' specifier \<or> startsWithIgnoreCase ''https:'' specifier
      \<or> startsWithIgnoreCase ''data:'' specifier)"

definition isJsrOrNpmSpecifier :: "string \<Rightarrow> bool" where
  "isJsrOrNpmSpecifier specifier =
     (startsWithIgnoreCase ''jsr:'' specifier \<or> startsWithIgnoreCase ''npm:'' specifier)"

section \<open>Errors, collaborators and the importer's state\<close>

text \<open>
  A rejected promise or a thrown exception is a value: \<open>TypeError\<close> is what \<^verbatim>\<open>new URL\<close> and a
  method call on \<^verbatim>\<open>undefined\<close> throw, \<open>Error\<close> is the \<^verbatim>\<open>new Error\<close> of \<^verbatim>\<open>#readModuleContent\<close>, and
  \<open>External\<close> is whatever a collaborator (Deno's file system and network, the transpilers,
  the module graph, the loader) rejects with.
\<close>

datatype error = TypeError string | Error string | External string

fun message :: "error \<Rightarrow> string" where
  "message (TypeError m) = m"
| "message (Error m) = m"
| "message (External m) = m"

typedecl CompilerOptions

record Response =
  ok :: bool
  statusText :: string
  body :: string

record Position =
  line :: nat
  character :: nat

record Span =
  spanStart :: Position
  spanEnd :: Position

text \<open>A dependency as \<^verbatim>\<open>@deno/graph\<close> reports it, and a text replacement.\<close>

record Dependency =
  depSpecifier :: string
  depCode :: "Span option"
  depType :: "Span option"

record Replacement =
  startLine :: nat
  startChar :: nat
  endLine :: nat
  endChar :: nat
  oldSpecifier :: string
  newSpecifier :: string

text \<open>
  Everything the importer calls outside its own files, as functions of their arguments.
  A URL object is kept as its \<^verbatim>\<open>href\<close>; \<open>newURL input base\<close> is \<^verbatim>\<open>new URL(input, base).href\<close>, or
  \<open>None\<close> where the constructor throws. \<open>createGraph\<close> gives the \<^verbatim>\<open>dependencies\<close> of the target
  module of the graph (\<open>None\<close> when the module or the property is missing).
  \<open>findMissingImports\<close>, \<open>replaceImportMeta\<close>, \<open>createOriginalUrlComment\<close>, \<open>getCachePath\<close> and
  \<open>loadImportMap\<close> belong to other files of the repository (\<^verbatim>\<open>find_missing_imports.ts\<close>,
  \<^verbatim>\<open>replace_import_meta.ts\<close>, \<^verbatim>\<open>cache.ts\<close>, \<^verbatim>\<open>load_import_map.ts\<close>) whose text is not modelled,
  and \<open>cacheInfo\<close> rests on a SHA-256 digest; they are parameters as well, so every
  statement below holds whatever they compute.
\<close>

record 'm env =
  newURL :: "string \<Rightarrow> string option \<Rightarrow> string option"
  importMetaUrl :: string
  cwd :: string
  getDefaultDenoCacheDir :: string
  isAbsolute :: "string \<Rightarrow> bool"
  pathJoin :: "string \<Rightarrow> string \<Rightarrow> string"
  fromFileUrl :: "string \<Rightarrow> string"
  readTextFile :: "string \<Rightarrow> error + string"
  fetch :: "string \<Rightarrow> error + Response"
  envTranspileMode :: "string option"
  stripTypes :: "string \<Rightarrow> error + string"
  transpileModule :: "string \<Rightarrow> CompilerOptions option \<Rightarrow> error + string"
  createGraph :: "string \<Rightarrow> string \<Rightarrow> error + Dependency list option"
  loaderResolve :: "string \<Rightarrow> error + string"
  loaderLoad :: "string \<Rightarrow> error option"
  cacheInfo :: "string \<Rightarrow> error + string"
  findMissingImports :: "string \<Rightarrow> (string \<times> string) list \<Rightarrow> Replacement list \<Rightarrow> Replacement list"
  replaceImportMeta :: "string \<Rightarrow> string \<Rightarrow> string"
  createOriginalUrlComment :: "string \<Rightarrow> string"
  getCachePath :: "string \<Rightarrow> string \<Rightarrow> ImportMap \<Rightarrow> string"
  ensureDir :: "string \<Rightarrow> error option"
  writeTextFile :: "string \<Rightarrow> string \<Rightarrow> error option"
  findDenoConfigFile :: "string \<Rightarrow> error + string option"
  loadImportMap :: "string \<Rightarrow> error + ImportMap option"
  dynamicImport :: "string \<Rightarrow> (string \<rightharpoonup> string) \<Rightarrow> error + 'm"

record TranspileOptions =
  mode :: "string option"
  compilerOptions :: "CompilerOptions option"

record TsImporterOptions =
  optImportMap :: "ImportMap option"
  optCacheDir :: "string option"
  optClearDenoCache :: "bool option"
  optAutoDiscoverImportMap :: "bool option"
  optTsTranspileMode :: "string option"
  optTsCompilerOptions :: "CompilerOptions option"

text \<open>The fields a \<^verbatim>\<open>TsImporter\<close> never changes after its constructor.\<close>

record TsImporter =
  importMap :: "ImportMap option"
  cacheDir :: string
  clearDenoCache :: bool
  autoDiscoverImportMap :: bool
  tsTranspileOptions :: TranspileOptions

text \<open>
  The fields it does change, and its traces in the world: \<open>files\<close> are the cache files written
  (path to content), \<open>reads\<close> the modules whose content was requested, in order, \<open>warnings\<close> the
  lines of \<^verbatim>\<open>console.warn\<close>, and \<open>denoCacheCleared\<close> the URLs \<^verbatim>\<open>#clearDenoCacheForUrl\<close> has been run
  for (it removes their files from Deno's own module cache, where they exist).
  \<open>transformationPromises\<close> keeps the keys of the promise map only: the promise under a key
  is the run of that module's transformation.
\<close>

record 'm state =
  cache :: "string \<rightharpoonup> 'm"
  transformedModules :: "string \<rightharpoonup> string"
  processingModules :: "string set"
  transformationPromises :: "string set"
  files :: "string \<rightharpoonup> string"
  reads :: "string list"
  warnings :: "string list"
  denoCacheCleared :: "string set"

text \<open>The constructor; \<^verbatim>\<open>if (options.cacheDir)\<close> also fails for the empty string.\<close>

definition newTsImporter :: "'m env \<Rightarrow> TsImporterOptions \<Rightarrow> TsImporter" where
  "newTsImporter env options =
     \<lparr> importMap = optImportMap options,
       cacheDir =
         (case optCacheDir options of
            None \<Rightarrow> pathJoin env (getDefaultDenoCacheDir env) ''brad_jones_ts_importer''
          | Some dir \<Rightarrow>
              if dir = [] then pathJoin env (getDefaultDenoCacheDir env) ''brad_jones_ts_importer''
              else if isAbsolute env dir then dir else pathJoin env (cwd env) dir),
       clearDenoCache = (case optClearDenoCache options of None \<Rightarrow> False | Some b \<Rightarrow> b),
       autoDiscoverImportMap = (case optAutoDiscoverImportMap options of None \<Rightarrow> True | Some b \<Rightarrow> b),
       tsTranspileOptions =
         \<lparr> mode = optTsTranspileMode options, compilerOptions = optTsCompilerOptions options \<rparr> \<rparr>"

definition initialState :: "'m state" where
  "initialState =
     \<lparr> cache = Map.empty, transformedModules = Map.empty, processingModules = {},
       transformationPromises = {}, files = Map.empty, reads = [], warnings = [],
       denoCacheCleared = {} \<rparr>"

text \<open>\<^verbatim>\<open>url.protocol\<close>: the scheme of the href with its colon.\<close>

definition protocol :: "string \<Rightarrow> string" where
  "protocol href = takeWhile (\<lambda>c. c \<noteq> CHR '':'') href @ '':''"

text \<open>
  \<^verbatim>\<open>transpileTypeScript\<close>: the mode is the option, else the environment variable
  \<^verbatim>\<open>DENO_TS_IMPORTER_TRANSPILE_MODE\<close>, else \<^verbatim>\<open>"strip"\<close>; any other mode than the first two compiles.
\<close>

definition transpileTypeScript :: "'m env \<Rightarrow> string \<Rightarrow> TranspileOptions \<Rightarrow> error + string" where
  "transpileTypeScript env code options =
     (let transpileMode =
            (case mode options of
               Some m \<Rightarrow> m
             | None \<Rightarrow> (case envTranspileMode env of Some m \<Rightarrow> m | None \<Rightarrow> ''strip''))
      in if transpileMode = ''passthrough'' then Inr code
         else if transpileMode = ''strip'' then stripTypes env code
         else transpileModule env code (compilerOptions options))"

section \<open>Rewriting the specifiers of one module\<close>

text \<open>
  \<^verbatim>\<open>replaceImports(specifier, sourceCode, replacer)\<close>. The replacer the importer passes in the
  first pass also records what it is asked; a function has no such effect, so
  \<open>collectReplacements\<close> returns, besides its two results, the specifiers it called the
  replacer with, in order.
\<close>

definition createReplacement :: "Span \<Rightarrow> string \<Rightarrow> string \<Rightarrow> Replacement" where
  "createReplacement span spec newSpec =
     \<lparr> startLine = line (spanStart span), startChar = character (spanStart span),
       endLine = line (spanEnd span), endChar = character (spanEnd span),
       oldSpecifier = spec, newSpecifier = newSpec \<rparr>"

type_synonym collected = "Replacement list \<times> (string \<times> string) list \<times> string list"

definition addReplacements :: "Dependency \<Rightarrow> string \<Rightarrow> collected \<Rightarrow> collected" where
  "addReplacements dependency newSpec acc =
     (case acc of (replacements, specifierReplacements, calls) \<Rightarrow>
        (replacements
           @ (case depCode dependency of
                Some span \<Rightarrow> [createReplacement span (depSpecifier dependency) newSpec]
              | None \<Rightarrow> [])
           @ (case depType dependency of
                Some span \<Rightarrow> [createReplacement span (depSpecifier dependency) newSpec]
              | None \<Rightarrow> []),
         AList.update (depSpecifier dependency) newSpec specifierReplacements,
         calls))"

text \<open>One turn of the loop of \<^verbatim>\<open>collectReplacements\<close>; a \<^verbatim>\<open>continue\<close> returns the accumulator.\<close>

definition collectDependency ::
  "'m env \<Rightarrow> (string \<Rightarrow> string) \<Rightarrow> Dependency \<Rightarrow> collected \<Rightarrow> error + collected" where
  "collectDependency env replacer dependency acc =
     (if isRemoteSpecifier (depSpecifier dependency) then Inr acc
      else if isJsrOrNpmSpecifier (depSpecifier dependency) then
        (case loaderResolve env (depSpecifier dependency) of
           Inl e \<Rightarrow> Inl e
         | Inr resolved \<Rightarrow>
             if \<not> prefix ''file://'' resolved then
               (case loaderLoad env resolved of
                  Some e \<Rightarrow> Inl e
                | None \<Rightarrow>
                    (case cacheInfo env resolved of
                       Inl e \<Rightarrow> Inl e
                     | Inr cached \<Rightarrow> Inr (addReplacements dependency cached acc)))
             else Inr (addReplacements dependency resolved acc))
      else
        (case acc of (replacements, specifierReplacements, calls) \<Rightarrow>
           let newSpec = replacer (depSpecifier dependency);
               asked = (replacements, specifierReplacements, calls @ [depSpecifier dependency])
           in if depSpecifier dependency = newSpec then Inr asked
              else Inr (addReplacements dependency newSpec asked)))"

fun collectReplacements ::
  "'m env \<Rightarrow> (string \<Rightarrow> string) \<Rightarrow> Dependency list \<Rightarrow> collected \<Rightarrow> error + collected" where
  "collectReplacements env replacer [] acc = Inr acc"
| "collectReplacements env replacer (dependency # rest) acc =
     (case collectDependency env replacer dependency acc of
        Inl e \<Rightarrow> Inl e
      | Inr acc' \<Rightarrow> collectReplacements env replacer rest acc')"

text \<open>\<^verbatim>\<open>sourceCode.split("\n")\<close> and \<^verbatim>\<open>lines.join("\n")\<close>.\<close>

fun splitLines :: "string \<Rightarrow> string list" where
  "splitLines [] = [[]]"
| "splitLines (c # cs) =
     (if c = CHR 0x0A then [] # splitLines cs
      else (case splitLines cs of [] \<Rightarrow> [[c]] | l # ls \<Rightarrow> (c # l) # ls))"

fun joinLines :: "string list \<Rightarrow> string" where
  "joinLines [] = []"
| "joinLines [l] = l"
| "joinLines (l # l' # ls) = l @ [CHR 0x0A] @ joinLines (l' # ls)"

text \<open>The comparator of the sort (later positions first) and a stable sort by it.\<close>

definition compareReplacements :: "Replacement \<Rightarrow> Replacement \<Rightarrow> int" where
  "compareReplacements a b =
     (if startLine a \<noteq> startLine b then int (startLine b) - int (startLine a)
      else int (startChar b) - int (startChar a))"

fun insertSorted :: "Replacement \<Rightarrow> Replacement list \<Rightarrow> Replacement list" where
  "insertSorted x [] = [x]"
| "insertSorted x (y # ys) =
     (if compareReplacements x y \<le> 0 then x # y # ys else y # insertSorted x ys)"

definition sortReplacements :: "Replacement list \<Rightarrow> Replacement list" where
  "sortReplacements rs = foldr insertSorted rs []"

text \<open>
  The loop of \<^verbatim>\<open>applyReplacements\<close>. A start line beyond the text makes \<^verbatim>\<open>line\<close> undefined and
  \<^verbatim>\<open>line.substring\<close> throw; \<^verbatim>\<open>substring\<close> clamps its indices as \<open>take\<close> and \<open>drop\<close> do.
\<close>

fun replaceEach :: "string list \<Rightarrow> Replacement list \<Rightarrow> error + string list" where
  "replaceEach ls [] = Inr ls"
| "replaceEach ls (r # rs) =
     (if startLine r < length ls
      then replaceEach
             (ls[startLine r :=
                   take (startChar r) (ls ! startLine r) @ [CHR 0x22] @ newSpecifier r @ [CHR 0x22]
                     @ drop (endChar r) (ls ! startLine r)]) rs
      else Inl (TypeError ''Cannot read properties of undefined (reading 'substring')''))"

definition applyReplacements :: "string \<Rightarrow> Replacement list \<Rightarrow> error + string" where
  "applyReplacements sourceCode replacements =
     (case replaceEach (splitLines sourceCode) (sortReplacements replacements) of
        Inl e \<Rightarrow> Inl e
      | Inr ls \<Rightarrow> Inr (joinLines ls))"

definition replaceImports ::
  "'m env \<Rightarrow> string \<Rightarrow> string \<Rightarrow> (string \<Rightarrow> string) \<Rightarrow> error + (string \<times> string list)" where
  "replaceImports env spec sourceCode replacer =
     (case createGraph env spec sourceCode of
        Inl e \<Rightarrow> Inl e
      | Inr None \<Rightarrow> Inr (sourceCode, [])
      | Inr (Some dependencies) \<Rightarrow>
          (case collectReplacements env replacer dependencies ([], [], []) of
             Inl e \<Rightarrow> Inl e
           | Inr (replacements, specifierReplacements, calls) \<Rightarrow>
               let missingImports = findMissingImports env sourceCode specifierReplacements replacements;
                   allReplacements = replacements @ missingImports
               in if allReplacements = [] then Inr (sourceCode, calls)
                  else (case applyReplacements sourceCode allReplacements of
                          Inl e \<Rightarrow> Inl e
                        | Inr code \<Rightarrow> Inr (code, calls))))"

section \<open>The transformation engine\<close>

definition clearDenoCacheForUrl :: "string \<Rightarrow> 'm state \<Rightarrow> 'm state" where
  "clearDenoCacheForUrl url st = st\<lparr>denoCacheCleared := insert url (denoCacheCleared st)\<rparr>"

text \<open>
  \<^verbatim>\<open>#readModuleContent\<close>: what the read or the fetch gives, and its trace in \<open>reads\<close>.
\<close>

definition moduleContent :: "'m env \<Rightarrow> string \<Rightarrow> error + string" where
  "moduleContent env moduleUrl =
     (if protocol moduleUrl = ''file:'' then readTextFile env (fromFileUrl env moduleUrl)
      else (case fetch env moduleUrl of
              Inl e \<Rightarrow> Inl e
            | Inr response \<Rightarrow>
                if \<not> ok response
                then Inl (Error (''Failed to fetch '' @ moduleUrl @ '': '' @ statusText response))
                else Inr (body response)))"

definition readModuleContent :: "'m env \<Rightarrow> string \<Rightarrow> 'm state \<Rightarrow> (error + string) \<times> 'm state" where
  "readModuleContent env moduleUrl st =
     (moduleContent env moduleUrl, st\<lparr>reads := reads st @ [moduleUrl]\<rparr>)"

text \<open>
  \<^verbatim>\<open>#getCacheUrl\<close>, \<^verbatim>\<open>#writeToCache\<close> and \<^verbatim>\<open>#cacheModule\<close>. The cache path is asked for with the
  empty import map when the request has none; \<^verbatim>\<open>new URL\<close> may throw, the directory or the
  file may not be writable.
\<close>

definition getCacheUrl ::
  "'m env \<Rightarrow> TsImporter \<Rightarrow> string \<Rightarrow> string \<Rightarrow> ImportMap option \<Rightarrow> error + string" where
  "getCacheUrl env self urlString code im =
     (let effectiveImportMap = (case im of Some m \<Rightarrow> m | None \<Rightarrow> \<lparr> imports' = [], scopes = None \<rparr>);
          cachePath = getCachePath env urlString code effectiveImportMap;
          fullCachePath = pathJoin env (cacheDir self) cachePath
      in case newURL env (''file://'' @ fullCachePath) None of
           None \<Rightarrow> Inl (TypeError ''Invalid URL'')
         | Some href \<Rightarrow> Inr href)"

definition writeToCache :: "'m env \<Rightarrow> string \<Rightarrow> string \<Rightarrow> 'm state \<Rightarrow> error option \<times> 'm state" where
  "writeToCache env cacheUrl content st =
     (let cachePath = fromFileUrl env cacheUrl;
          dir = pathJoin env cachePath ''..''
      in case ensureDir env dir of
           Some e \<Rightarrow> (Some e, st)
         | None \<Rightarrow>
             (case writeTextFile env cachePath content of
                Some e \<Rightarrow> (Some e, st)
              | None \<Rightarrow> (None, st\<lparr>files := (files st)(cachePath \<mapsto> content)\<rparr>)))"

definition cacheModule ::
  "'m env \<Rightarrow> TsImporter \<Rightarrow> string \<Rightarrow> string \<Rightarrow> ImportMap option \<Rightarrow> 'm state
     \<Rightarrow> (error + string) \<times> 'm state" where
  "cacheModule env self urlString code im st =
     (let processedCode = (if hasImportMetaUrl code then replaceImportMeta env code urlString else code);
          finalCode = (if processedCode \<noteq> code
                       then createOriginalUrlComment env urlString @ processedCode
                       else processedCode)
      in case getCacheUrl env self urlString finalCode im of
           Inl e \<Rightarrow> (Inl e, st)
         | Inr cacheUrl \<Rightarrow>
             (case writeToCache env cacheUrl finalCode st of
                (Some e, st') \<Rightarrow> (Inl e, st')
              | (None, st') \<Rightarrow>
                  (Inr cacheUrl,
                   st'\<lparr>transformedModules := (transformedModules st')(urlString \<mapsto> cacheUrl)\<rparr>)))"

text \<open>A JavaScript \<^verbatim>\<open>Set\<close> in insertion order.\<close>

definition setAdd :: "string list \<Rightarrow> string \<Rightarrow> string list" where
  "setAdd xs x = (if x \<in> set xs then xs else xs @ [x])"

text \<open>
  What \<^verbatim>\<open>replacerWithDependencyCollection\<close> leaves in \<^verbatim>\<open>originalToTransformedSpecifiers\<close> and in
  \<^verbatim>\<open>allLocalSpecifiers\<close> after the calls of the first pass.
\<close>

definition collectSpecifiers ::
  "(string \<Rightarrow> string) \<Rightarrow> string list \<Rightarrow> (string \<times> string) list \<times> string list" where
  "collectSpecifiers applyImportMapToSpecifier calls =
     foldl (\<lambda>(originalToTransformed, allLocal) spec.
              (AList.update spec (applyImportMapToSpecifier spec) originalToTransformed,
               if isRelativeOrFileUrl spec then setAdd allLocal spec else allLocal))
       ([], []) calls"

text \<open>
  The body of the transformation up to the point where the dependencies are processed:
  either it has ended (an error, or the quick path of a module without imports), or the
  cache URL is registered and the dependencies are pending.
\<close>

datatype 'm prepared =
  Finished "error + string" "'m state"
| Pending string string "(string \<times> string) list" "string list" "'m state"

definition beginTransformation ::
  "'m env \<Rightarrow> TsImporter \<Rightarrow> string \<Rightarrow> ImportMap option \<Rightarrow> 'm state \<Rightarrow> 'm prepared" where
  "beginTransformation env self urlString im st =
     (case readModuleContent env urlString st of
        (Inl e, st1) \<Rightarrow> Finished (Inl e) st1
      | (Inr originalCode, st1) \<Rightarrow>
          (case transpileTypeScript env originalCode (tsTranspileOptions self) of
             Inl e \<Rightarrow> Finished (Inl e) st1
           | Inr transpiledCode \<Rightarrow>
               if \<not> hasImports transpiledCode \<and> \<not> hasImportMetaUrl transpiledCode
               then (case cacheModule env self urlString transpiledCode im st1 of
                       (r, st2) \<Rightarrow> Finished r st2)
               else
                 let importEntries = (case im of Some m \<Rightarrow> imports' m | None \<Rightarrow> []);
                     scopeEntries = (case im of
                                       Some m \<Rightarrow> (case scopes m of Some s \<Rightarrow> s | None \<Rightarrow> [])
                                     | None \<Rightarrow> []);
                     applyImportMapToSpecifier =
                       createOptimizedReplacer urlString importEntries scopeEntries
                 in (case replaceImports env urlString transpiledCode applyImportMapToSpecifier of
                       Inl e \<Rightarrow> Finished (Inl e) st1
                     | Inr (replaced, calls) \<Rightarrow>
                         (case collectSpecifiers applyImportMapToSpecifier calls of
                            (originalToTransformed, allLocal) \<Rightarrow>
                              (case getCacheUrl env self urlString
                                      (replaceImportMeta env replaced urlString) im of
                                 Inl e \<Rightarrow> Finished (Inl e) st1
                               | Inr cacheUrl \<Rightarrow>
                                   Pending (replaceImportMeta env replaced urlString) cacheUrl
                                     originalToTransformed allLocal
                                     (st1\<lparr>transformedModules :=
                                             (transformedModules st1)(urlString \<mapsto> cacheUrl)\<rparr>))))))"

text \<open>
  The engine runs its dependencies as promises. Here one task runs at a time, each to its
  end, in the order in which the source starts them; a run that would wait for a promise
  that nothing in this order can settle, or that is out of fuel, has no result (\<open>None\<close>).
  The recursive call is a parameter of the functions on dependencies, so that they are
  defined before \<open>transformModule\<close> and stated for any transformer.
\<close>

type_synonym 'm transformer =
  "string \<Rightarrow> ImportMap option \<Rightarrow> 'm state \<Rightarrow> ((error + string) \<times> 'm state) option"

definition processDependency ::
  "'m transformer \<Rightarrow> 'm env \<Rightarrow> string \<Rightarrow> string \<Rightarrow> ImportMap option \<Rightarrow> 'm state
     \<Rightarrow> ((error + string) \<times> 'm state) option" where
  "processDependency transform env spec baseUrl im st =
     (case (if isRelativeOrFileUrl spec then newURL env spec (Some baseUrl)
            else newURL env spec None) of
        None \<Rightarrow> Some (Inl (TypeError ''Invalid URL''), st)
      | Some resolvedUrl \<Rightarrow> transform resolvedUrl im st)"

text \<open>
  One pushed promise: \<^verbatim>\<open>processDependency(...).then(...).catch(...)\<close>. The accumulator is
  \<^verbatim>\<open>transformedToCachedUrls\<close> (a \<^verbatim>\<open>Map\<close>, in insertion order) and the first rejection among the
  pushed promises, which is what \<^verbatim>\<open>Promise.all\<close> rejects with: the handler of \<^verbatim>\<open>catch\<close> itself
  throws when \<^verbatim>\<open>new URL\<close> does.
\<close>

type_synonym settled = "(string \<times> string) list \<times> error option"

definition dependencyTask ::
  "'m transformer \<Rightarrow> 'm env \<Rightarrow> string \<Rightarrow> ImportMap option \<Rightarrow> string \<Rightarrow> settled \<Rightarrow> 'm state
     \<Rightarrow> (settled \<times> 'm state) option" where
  "dependencyTask transform env moduleUrl im spec acc st =
     (case processDependency transform env spec moduleUrl im st of
        None \<Rightarrow> None
      | Some (Inr cachedUrl, st') \<Rightarrow> Some ((AList.update spec cachedUrl (fst acc), snd acc), st')
      | Some (Inl err, st') \<Rightarrow>
          (case (if isRelativeOrFileUrl spec then newURL env spec (Some moduleUrl) else Some spec) of
             None \<Rightarrow>
               Some ((fst acc,
                      (case snd acc of None \<Rightarrow> Some (TypeError ''Invalid URL'') | Some e \<Rightarrow> Some e)),
                     st')
           | Some resolvedUrl \<Rightarrow>
               Some ((AList.update spec resolvedUrl (fst acc), snd acc),
                     st'\<lparr>warnings :=
                           warnings st' @ [''Failed to transform '' @ spec @ '': '' @ message err]\<rparr>)))"

fun dependencyTasks ::
  "'m transformer \<Rightarrow> 'm env \<Rightarrow> string \<Rightarrow> ImportMap option \<Rightarrow> string list \<Rightarrow> settled \<Rightarrow> 'm state
     \<Rightarrow> (settled \<times> 'm state) option" where
  "dependencyTasks transform env moduleUrl im [] acc st = Some (acc, st)"
| "dependencyTasks transform env moduleUrl im (spec # rest) acc st =
     (case dependencyTask transform env moduleUrl im spec acc st of
        None \<Rightarrow> None
      | Some (acc', st') \<Rightarrow> dependencyTasks transform env moduleUrl im rest acc' st')"

text \<open>The specifiers the two loops of \<^verbatim>\<open>#processDependenciesParallel\<close> push a promise for.\<close>

definition dependencySpecifiers :: "(string \<times> string) list \<Rightarrow> string list \<Rightarrow> string list" where
  "dependencySpecifiers originalToTransformed allLocal =
     filter (\<lambda>transformedSpecifier.
               isRelativeOrFileUrl transformedSpecifier \<or> isHttpUrl transformedSpecifier
               \<or> isJsr transformedSpecifier \<or> isNpm transformedSpecifier)
       (map snd originalToTransformed)
     @ filter (\<lambda>localSpecifier. map_of originalToTransformed localSpecifier = None) allLocal"

definition processDependenciesParallel ::
  "'m transformer \<Rightarrow> 'm env \<Rightarrow> (string \<times> string) list \<Rightarrow> string list \<Rightarrow> string
     \<Rightarrow> ImportMap option \<Rightarrow> 'm state \<Rightarrow> ((error + (string \<times> string) list) \<times> 'm state) option" where
  "processDependenciesParallel transform env originalToTransformed allLocal moduleUrl im st =
     (case dependencyTasks transform env moduleUrl im
             (dependencySpecifiers originalToTransformed allLocal) ([], None) st of
        None \<Rightarrow> None
      | Some ((transformedToCachedUrls, None), st') \<Rightarrow> Some (Inr transformedToCachedUrls, st')
      | Some ((transformedToCachedUrls, Some e), st') \<Rightarrow> Some (Inl e, st'))"

text \<open>The replacer of the second pass: \<^verbatim>\<open>transformedToCachedUrls.get(specifier) || specifier\<close>.\<close>

definition cachedOrSame :: "(string \<times> string) list \<Rightarrow> string \<Rightarrow> string" where
  "cachedOrSame transformedToCachedUrls spec =
     (case map_of transformedToCachedUrls spec of
        None \<Rightarrow> spec
      | Some cachedUrl \<Rightarrow> if cachedUrl = [] then spec else cachedUrl)"

text \<open>The rest of the body, after the dependencies: second pass, banner, write.\<close>

definition completeTransformation ::
  "'m env \<Rightarrow> string \<Rightarrow> string \<Rightarrow> string \<Rightarrow> error + (string \<times> string) list \<Rightarrow> 'm state
     \<Rightarrow> (error + string) \<times> 'm state" where
  "completeTransformation env urlString transformedCode cacheUrl deps st =
     (case deps of
        Inl e \<Rightarrow> (Inl e, st)
      | Inr transformedToCachedUrls \<Rightarrow>
          (case (if transformedToCachedUrls \<noteq> []
                 then map_sum id fst
                        (replaceImports env urlString transformedCode
                           (cachedOrSame transformedToCachedUrls))
                 else Inr transformedCode) of
             Inl e \<Rightarrow> (Inl e, st)
           | Inr finalCode \<Rightarrow>
               (case writeToCache env cacheUrl
                       (createOriginalUrlComment env urlString @ finalCode) st of
                  (Some e, st') \<Rightarrow> (Inl e, st')
                | (None, st') \<Rightarrow> (Inr cacheUrl, st'))))"

text \<open>
  The \<^verbatim>\<open>try\<close> block of the transformation promise: the body before the dependencies, the
  dependencies, the rest.
\<close>

definition transformation ::
  "'m transformer \<Rightarrow> 'm env \<Rightarrow> TsImporter \<Rightarrow> string \<Rightarrow> ImportMap option \<Rightarrow> 'm state
     \<Rightarrow> ((error + string) \<times> 'm state) option" where
  "transformation transform env self urlString im st =
     (case beginTransformation env self urlString im st of
        Finished r st1 \<Rightarrow> Some (r, st1)
      | Pending transformedCode cacheUrl originalToTransformed allLocal st1 \<Rightarrow>
          (case processDependenciesParallel transform env originalToTransformed allLocal
                  urlString im st1 of
             None \<Rightarrow> None
           | Some (deps, st2) \<Rightarrow>
               Some (completeTransformation env urlString transformedCode cacheUrl deps st2)))"

text \<open>The first statement of \<^verbatim>\<open>#transformModule\<close>.\<close>

definition clearOnEntry :: "TsImporter \<Rightarrow> string \<Rightarrow> 'm state \<Rightarrow> 'm state" where
  "clearOnEntry self urlString st =
     (if clearDenoCache self \<and> protocol urlString = ''file:''
      then clearDenoCacheForUrl urlString st else st)"

text \<open>
  \<^verbatim>\<open>#transformModule\<close>. The marker of a module in flight is set before the \<^verbatim>\<open>try\<close> block runs
  and removed by the \<^verbatim>\<open>finally\<close> after it, whatever the block returned. A request for a
  module in flight whose promise is pending waits for that promise.
\<close>

primrec transformModule ::
  "nat \<Rightarrow> 'm env \<Rightarrow> TsImporter \<Rightarrow> string \<Rightarrow> ImportMap option \<Rightarrow> 'm state
     \<Rightarrow> ((error + string) \<times> 'm state) option" where
  "transformModule 0 env self urlString im st = None"
| "transformModule (Suc n) env self urlString im st =
     (let st0 = clearOnEntry self urlString st
      in case transformedModules st0 urlString of
           Some cached \<Rightarrow> Some (Inr cached, st0)
         | None \<Rightarrow>
             if urlString \<in> processingModules st0
             then (if urlString \<in> transformationPromises st0 then None
                   else Some (Inr urlString, st0))
             else
               (case transformation (transformModule n env self) env self urlString im
                       (st0\<lparr>processingModules := insert urlString (processingModules st0),
                            transformationPromises :=
                              insert urlString (transformationPromises st0)\<rparr>) of
                  None \<Rightarrow> None
                | Some (r, st3) \<Rightarrow>
                    Some (r, st3\<lparr>processingModules := processingModules st3 - {urlString},
                                 transformationPromises :=
                                   transformationPromises st3 - {urlString}\<rparr>)))"

section \<open>The entry point\<close>

text \<open>An object spread \<^verbatim>\<open>{ ...a, ...b }\<close>: the keys of \<open>a\<close> keep their place, \<open>b\<close> overrides.\<close>

definition spread :: "(string \<times> 'v) list \<Rightarrow> (string \<times> 'v) list \<Rightarrow> (string \<times> 'v) list" where
  "spread a b = foldl (\<lambda>acc (k, v). AList.update k v acc) a b"

text \<open>The import map a call of \<^verbatim>\<open>import\<close> hands to the engine (the block on discovery).\<close>

definition effectiveImportMapFor ::
  "'m env \<Rightarrow> TsImporter \<Rightarrow> string \<Rightarrow> ImportMap option \<Rightarrow> error + ImportMap option" where
  "effectiveImportMapFor env self url im =
     (let effectiveImportMap = (case im of Some m \<Rightarrow> Some m | None \<Rightarrow> importMap self)
      in if autoDiscoverImportMap self \<and> im = None \<and> protocol url = ''file:''
         then (case findDenoConfigFile env (fromFileUrl env url) of
                 Inl e \<Rightarrow> Inl e
               | Inr None \<Rightarrow> Inr effectiveImportMap
               | Inr (Some configFilePath) \<Rightarrow>
                   if configFilePath = [] then Inr effectiveImportMap
                   else (case loadImportMap env configFilePath of
                           Inl e \<Rightarrow> Inl e
                         | Inr config \<Rightarrow>
                             Inr (Some
                               \<lparr> imports' =
                                   spread (case effectiveImportMap of Some m \<Rightarrow> imports' m | None \<Rightarrow> [])
                                     (case config of Some c \<Rightarrow> imports' c | None \<Rightarrow> []),
                                 scopes =
                                   Some (spread
                                     (case effectiveImportMap of
                                        Some m \<Rightarrow> (case scopes m of Some s \<Rightarrow> s | None \<Rightarrow> [])
                                      | None \<Rightarrow> [])
                                     (case config of
                                        Some c \<Rightarrow> (case scopes c of Some s \<Rightarrow> s | None \<Rightarrow> [])
                                      | None \<Rightarrow> [])) \<rparr>)))
         else Inr effectiveImportMap)"

definition tsImport ::
  "nat \<Rightarrow> 'm env \<Rightarrow> TsImporter \<Rightarrow> string \<Rightarrow> ImportMap option \<Rightarrow> 'm state
     \<Rightarrow> ((error + 'm) \<times> 'm state) option" where
  "tsImport fuel env self specifier im st =
     (case cache st specifier of
        Some loaded \<Rightarrow> Some (Inr loaded, st)
      | None \<Rightarrow>
          (case newURL env specifier (Some (importMetaUrl env)) of
             None \<Rightarrow> Some (Inl (TypeError ''Invalid URL''), st)
           | Some url \<Rightarrow>
               (let st1 = (if clearDenoCache self then clearDenoCacheForUrl url st else st)
                in case effectiveImportMapFor env self url im of
                     Inl e \<Rightarrow> Some (Inl e, st1)
                   | Inr effectiveImportMap \<Rightarrow>
                       (case transformModule fuel env self url effectiveImportMap st1 of
                          None \<Rightarrow> None
                        | Some (Inl e, st2) \<Rightarrow> Some (Inl e, st2)
                        | Some (Inr transformedUrl, st2) \<Rightarrow>
                            (case dynamicImport env transformedUrl (files st2) of
                               Inl e \<Rightarrow> Some (Inl e, st2)
                             | Inr loaded \<Rightarrow>
                                 Some (Inr loaded,
                                       st2\<lparr>cache := (cache st2)(specifier \<mapsto> loaded)\<rparr>))))))"

section \<open>An example environment\<close>

text \<open>
  A small world to run the engine in: files on a disk given as a list, \<^verbatim>\<open>file:\<close> URLs whose
  path is what follows \<^verbatim>\<open>file://\<close>, relative specifiers of the form \<^verbatim>\<open>./name\<close>, a module graph
  that sees one \<^verbatim>\<open>import "..."\<close> at the start of the text, and a cache path that spells out
  the import map and the URL it is given.
\<close>

definition dirName :: "string \<Rightarrow> string" where
  "dirName href = rev (dropWhile (\<lambda>c. c \<noteq> CHR ''/'') (rev href))"

definition demoNewURL :: "string \<Rightarrow> string option \<Rightarrow> string option" where
  "demoNewURL input base =
     (if prefix ''file:///'' input \<or> prefix ''https://'' input then Some input
      else (case base of
              None \<Rightarrow> None
            | Some b \<Rightarrow> if prefix ''./'' input then Some (dirName b @ drop 2 input) else None))"

fun demoDependencies :: "nat \<Rightarrow> string list \<Rightarrow> Dependency list" where
  "demoDependencies i [] = []"
| "demoDependencies i (l # ls) =
     (if prefix ''import \"'' l
      then [\<lparr> depSpecifier = takeWhile (\<lambda>c. c \<noteq> CHR 0x22) (drop 8 l),
              depCode = Some \<lparr> spanStart = \<lparr> line = i, character = 7 \<rparr>,
                              spanEnd = \<lparr> line = i,
                                          character = 9 + length (takeWhile (\<lambda>c. c \<noteq> CHR 0x22) (drop 8 l)) \<rparr> \<rparr>,
              depType = None \<rparr>]
      else [])
     @ demoDependencies (Suc i) ls"

definition demoGraph :: "string \<Rightarrow> string \<Rightarrow> error + Dependency list option" where
  "demoGraph spec code = Inr (Some (demoDependencies 0 (splitLines code)))"

definition demoCachePath :: "string \<Rightarrow> string \<Rightarrow> ImportMap \<Rightarrow> string" where
  "demoCachePath urlString code m =
     concat (map (\<lambda>(k, v). k @ ''='' @ v @ '';'') (imports' m))
       @ map (\<lambda>c. if c = CHR ''/'' \<or> c = CHR '':'' then CHR ''_'' else c) urlString"

definition demoEnv :: "(string \<times> string) list \<Rightarrow> string env" where
  "demoEnv disk =
     \<lparr> newURL = demoNewURL,
       importMetaUrl = ''file:///lib/ts_importer.ts'',
       cwd = ''/work'',
       getDefaultDenoCacheDir = ''/deno'',
       isAbsolute = prefix ''/'',
       pathJoin = (\<lambda>a b. a @ ''/'' @ b),
       fromFileUrl = (\<lambda>url. if prefix ''file://'' url then drop 7 url else []),
       readTextFile = (\<lambda>path. if path = [] then Inl (External ''NotFound'')
                              else (case map_of disk path of
                                      Some content \<Rightarrow> Inr content
                                    | None \<Rightarrow> Inl (External ''NotFound''))),
       fetch = (\<lambda>url. Inl (External ''network'')),
       envTranspileMode = None,
       stripTypes = Inr,
       transpileModule = (\<lambda>code options. Inr code),
       createGraph = demoGraph,
       loaderResolve = Inr,
       loaderLoad = (\<lambda>s. None),
       cacheInfo = Inr,
       findMissingImports = (\<lambda>code replaced replacements. []),
       replaceImportMeta = (\<lambda>code url. code),
       createOriginalUrlComment = (\<lambda>url. ''// '' @ url @ [CHR 0x0A]),
       getCachePath = demoCachePath,
       ensureDir = (\<lambda>dir. None),
       writeTextFile = (\<lambda>path content. None),
       findDenoConfigFile = (\<lambda>path. Inr None),
       loadImportMap = (\<lambda>path. Inr None),
       dynamicImport = (\<lambda>url fs. case fs (drop 7 url) of
                                     Some content \<Rightarrow> Inr content
                                   | None \<Rightarrow> Inl (External ''Module not found'')) \<rparr>"

definition cycleDisk :: "(string \<times> string) list" where
  "cycleDisk = [(''/proj/a.ts'', ''import \"./b.ts\"''), (''/proj/b.ts'', ''import \"./a.ts\"'')]"

text \<open>A module with three imports, the second of which cannot be read.\<close>

definition brokenDisk :: "(string \<times> string) list" where
  "brokenDisk =
     [(''/proj/p.ts'',
       ''import \"./x.ts\"'' @ [CHR 0x0A] @ ''import \"./missing.ts\"'' @ [CHR 0x0A] @ ''import \"./y.ts\"''),
      (''/proj/x.ts'', ''const x = 1''),
      (''/proj/y.ts'', ''const y = 2'')]"

text \<open>
  A module with three imports: one that can be read, one that cannot, and one whose
  specifier \<^verbatim>\<open>//[\<close> is no URL against any base (\<^verbatim>\<open>new URL("//[", base)\<close> throws).
\<close>

definition unparsableDisk :: "(string \<times> string) list" where
  "unparsableDisk =
     [(''/proj/p.ts'',
       ''import \"./x.ts\"'' @ [CHR 0x0A] @ ''import \"./missing.ts\"'' @ [CHR 0x0A] @ ''import \"//[\"''),
      (''/proj/x.ts'', ''const x = 1'')]"

definition demoImporter :: TsImporter where
  "demoImporter = \<lparr> importMap = None, cacheDir = ''/cache'', clearDenoCache = False,
     autoDiscoverImportMap = True, tsTranspileOptions = \<lparr> mode = None, compilerOptions = None \<rparr> \<rparr>"

text \<open>
  A project whose manifest maps \<open>@x\<close> to \<open>B\<close>, and an importer constructed with an import
  map that maps \<open>@x\<close> to \<open>A\<close>.
\<close>

definition discoveringEnv :: "string env" where
  "discoveringEnv =
     (demoEnv [(''/proj/main.ts'', ''const a = 1'')])
       \<lparr> findDenoConfigFile := (\<lambda>path. Inr (Some ''/proj/deno.json'')),
         loadImportMap := (\<lambda>path. Inr (Some \<lparr> imports' = [(''@x'', ''B'')], scopes = None \<rparr>)) \<rparr>"

definition configuredImporter :: TsImporter where
  "configuredImporter =
     demoImporter\<lparr> importMap := Some \<lparr> imports' = [(''@x'', ''A'')], scopes = None \<rparr> \<rparr>"

section \<open>Notions used in the proofs\<close>

text \<open>
  What every step of the engine keeps: registered cache locations stay as they are, the
  set of modules in flight is the same before and after a call, nothing is added to the
  pending promises, warnings are only added, the memory cache is not touched.
\<close>

definition grows :: "'m state \<Rightarrow> 'm state \<Rightarrow> bool" where
  "grows st st' \<longleftrightarrow>
     (\<forall>k v. transformedModules st k = Some v \<longrightarrow> transformedModules st' k = Some v)
     \<and> denoCacheCleared st \<subseteq> denoCacheCleared st'
     \<and> processingModules st' = processingModules st
     \<and> transformationPromises st' \<subseteq> transformationPromises st
     \<and> set (warnings st) \<subseteq> set (warnings st')
     \<and> cache st' = cache st"

definition transformerGrows :: "'m transformer \<Rightarrow> bool" where
  "transformerGrows transform \<longleftrightarrow>
     (\<forall>u im s r s'. transform u im s = Some (r, s') \<longrightarrow> grows s s')"

text \<open>
  The modules whose content can be read, the state in which every module in flight
  already has its cache location registered, and the number of readable modules that
  have none yet.
\<close>

definition readable :: "'m env \<Rightarrow> string set" where
  "readable env = {u. \<exists>code. moduleContent env u = Inr code}"

definition inFlightRegistered :: "'m state \<Rightarrow> bool" where
  "inFlightRegistered st \<longleftrightarrow> processingModules st \<subseteq> dom (transformedModules st)"

definition unregistered :: "'m env \<Rightarrow> 'm state \<Rightarrow> nat" where
  "unregistered env st = card (readable env - dom (transformedModules st))"

section \<open>Properties of the replacer\<close>

lemma matchEntries_find:
  "matchEntries entries specifier =
     map_option (\<lambda>(k, v). v @ drop (length k) specifier) (find (keyMatches specifier) entries)"
  by (induction entries) (auto simp: keyMatches_def)




text \<open>
  C3: under \<open>{"@x/": "A/"}\<close> the specifier \<open>@x/sub\<close> is left as it is. The test is
  \<^verbatim>\<open>specifier.startsWith(key + "/")\<close>, so a key that already ends in a slash asks for two.
\<close>

theorem trailing_slash_key_not_matched:
  "createOptimizedReplacer ''file:///proj/main.ts'' [(''@x/'', ''A/'')] [] ''@x/sub'' = ''@x/sub''"
  by (simp add: createOptimizedReplacer_def)

section \<open>What the engine keeps\<close>

lemmas engine_defs =
  clearOnEntry_def clearDenoCacheForUrl_def transformation_def beginTransformation_def
  readModuleContent_def moduleContent_def protocol_def transpileTypeScript_def
  cacheModule_def getCacheUrl_def writeToCache_def collectSpecifiers_def setAdd_def
  replaceImports_def collectDependency_def addReplacements_def createReplacement_def
  applyReplacements_def sortReplacements_def compareReplacements_def
  processDependenciesParallel_def dependencySpecifiers_def dependencyTask_def
  processDependency_def completeTransformation_def cachedOrSame_def
  createOptimizedReplacer_def isRelativeOrFileUrl_def isHttpUrl_def isJsr_def isNpm_def
  isRemoteSpecifier_def isJsrOrNpmSpecifier_def startsWithIgnoreCase_def lowerAscii_def
  hasImports_def hasImportMetaUrl_def importRegex_def importMetaRegex_def rxPlus_def
  isSpace_def notLineEnd_def isWordChar_def initialState_def

lemmas demo_defs =
  demoEnv_def demoImporter_def demoNewURL_def demoGraph_def demoCachePath_def dirName_def

lemma grows_refl [simp]: "grows st st"
  by (simp add: grows_def)

lemma grows_trans: "grows a b \<Longrightarrow> grows b c \<Longrightarrow> grows a c"
  unfolding grows_def by (elim conjE, intro conjI) (blast, blast, simp, blast, blast, simp)

lemma clearDenoCacheForUrl_grows: "grows st (clearDenoCacheForUrl u st)"
  by (auto simp: grows_def clearDenoCacheForUrl_def)

lemma readModuleContent_grows: "readModuleContent env u st = (r, st') \<Longrightarrow> grows st st'"
  by (auto simp: grows_def readModuleContent_def)

lemma readModuleContent_transformed:
  "readModuleContent env u st = (r, st') \<Longrightarrow> transformedModules st' = transformedModules st"
  by (auto simp: readModuleContent_def)

lemma writeToCache_grows: "writeToCache env cacheUrl content st = (r, st') \<Longrightarrow> grows st st'"
  by (auto simp: grows_def writeToCache_def Let_def split: option.splits)

lemma writeToCache_transformed:
  "writeToCache env cacheUrl content st = (r, st') \<Longrightarrow> transformedModules st' = transformedModules st"
  by (auto simp: writeToCache_def Let_def split: option.splits)

lemma register_grows:
  "transformedModules st u = None \<Longrightarrow>
   grows st (st\<lparr>transformedModules := (transformedModules st)(u \<mapsto> loc)\<rparr>)"
  by (auto simp: grows_def)

lemma cacheModule_grows:
  assumes "transformedModules st u = None" and "cacheModule env self u code im st = (r, st')"
  shows "grows st st'"
proof -
  show ?thesis
  proof (cases "getCacheUrl env self u
          (if (if hasImportMetaUrl code then replaceImportMeta env code u else code) \<noteq> code
           then createOriginalUrlComment env u @ (if hasImportMetaUrl code then replaceImportMeta env code u else code)
           else (if hasImportMetaUrl code then replaceImportMeta env code u else code)) im")
    case (Inl e)
    with assms show ?thesis by (simp add: cacheModule_def Let_def)
  next
    case (Inr cacheUrl)
    obtain w st1 where w: "writeToCache env cacheUrl
          (if (if hasImportMetaUrl code then replaceImportMeta env code u else code) \<noteq> code
           then createOriginalUrlComment env u @ (if hasImportMetaUrl code then replaceImportMeta env code u else code)
           else (if hasImportMetaUrl code then replaceImportMeta env code u else code)) st = (w, st1)"
      by (cases "writeToCache env cacheUrl
          (if (if hasImportMetaUrl code then replaceImportMeta env code u else code) \<noteq> code
           then createOriginalUrlComment env u @ (if hasImportMetaUrl code then replaceImportMeta env code u else code)
           else (if hasImportMetaUrl code then replaceImportMeta env code u else code)) st") auto
    have g: "grows st st1" and t: "transformedModules st1 = transformedModules st"
      using w writeToCache_grows writeToCache_transformed by blast+
    show ?thesis
    proof (cases w)
      case None
      with assms Inr w have "st' = st1\<lparr>transformedModules := (transformedModules st1)(u \<mapsto> cacheUrl)\<rparr>"
        by (simp add: cacheModule_def Let_def)
      moreover have "grows st1 (st1\<lparr>transformedModules := (transformedModules st1)(u \<mapsto> cacheUrl)\<rparr>)"
        using assms(1) t by (intro register_grows) simp
      ultimately show ?thesis using g grows_trans by blast
    next
      case (Some e)
      with assms Inr w have "st' = st1" by (simp add: cacheModule_def Let_def)
      with g show ?thesis by simp
    qed
  qed
qed

lemma cacheModule_registered:
  "cacheModule env self u code im st = (Inr loc, st') \<Longrightarrow> transformedModules st' u = Some loc"
  by (auto simp: cacheModule_def Let_def split: sum.splits option.splits prod.splits)

lemma beginTransformation_cases:
  assumes "beginTransformation env self u im st = p"
  obtains (failed) e where "p = Finished (Inl e) (st\<lparr>reads := reads st @ [u]\<rparr>)"
  | (quick) code r st1 where "p = Finished r st1"
      and "cacheModule env self u code im (st\<lparr>reads := reads st @ [u]\<rparr>) = (r, st1)"
  | (pending) code cacheUrl originalToTransformed allLocal
      where "p = Pending code cacheUrl originalToTransformed allLocal
                   (st\<lparr>reads := reads st @ [u],
                       transformedModules := (transformedModules st)(u \<mapsto> cacheUrl)\<rparr>)"
        and "getCacheUrl env self u code im = Inr cacheUrl"
        and "\<exists>src. moduleContent env u = Inr src"
  using assms
  by (auto simp: beginTransformation_def readModuleContent_def Let_def
      split: sum.splits prod.splits if_splits)

lemma beginTransformation_Finished:
  assumes "transformedModules st u = None"
    and "beginTransformation env self u im st = Finished r st1"
  shows "grows st st1" and "r = Inr loc \<Longrightarrow> transformedModules st1 u = Some loc"
proof -
  have g: "grows st (st\<lparr>reads := reads st @ [u]\<rparr>)"
    by (simp add: grows_def)
  from assms(2) show "grows st st1"
  proof (cases rule: beginTransformation_cases)
    case (failed e)
    with g show ?thesis by simp
  next
    case (quick code r' st1')
    then have "cacheModule env self u code im (st\<lparr>reads := reads st @ [u]\<rparr>) = (r, st1)"
      by simp
    with assms(1) have "grows (st\<lparr>reads := reads st @ [u]\<rparr>) st1"
      by (intro cacheModule_grows) auto
    with g show ?thesis by (rule grows_trans)
  next
    case (pending code cacheUrl originalToTransformed allLocal)
    then show ?thesis by simp
  qed
  assume "r = Inr loc"
  with assms(2) show "transformedModules st1 u = Some loc"
  proof (cases rule: beginTransformation_cases)
    case (quick code r' st1')
    with \<open>r = Inr loc\<close> show ?thesis by (auto dest: cacheModule_registered)
  qed auto
qed

lemma beginTransformation_Pending:
  assumes "transformedModules st u = None"
    and "beginTransformation env self u im st = Pending code cacheUrl o2t locals st1"
  shows "grows st st1" and "transformedModules st1 u = Some cacheUrl"
    and "getCacheUrl env self u code im = Inr cacheUrl"
  using assms(2)
  by (cases rule: beginTransformation_cases; use assms(1) in \<open>auto simp: grows_def\<close>)+

lemma completeTransformation_grows:
  assumes "completeTransformation env u code cacheUrl deps st = (r, st')"
  shows "grows st st'" and "transformedModules st' = transformedModules st"
    and "r = Inr loc \<Longrightarrow> loc = cacheUrl"
  using assms
  by (auto simp: completeTransformation_def split: sum.splits prod.splits option.splits if_splits
      dest: writeToCache_grows writeToCache_transformed)

lemma warn_grows: "grows st (st\<lparr>warnings := warnings st @ [w]\<rparr>)"
  by (auto simp: grows_def)

lemma processDependency_grows:
  assumes "transformerGrows transform"
    and "processDependency transform env spec base im st = Some (r, st')"
  shows "grows st st'"
  using assms
  by (auto simp: processDependency_def transformerGrows_def split: option.splits)

lemma dependencyTask_grows:
  assumes "transformerGrows transform"
    and "dependencyTask transform env moduleUrl im spec acc st = Some (acc', st')"
  shows "grows st st'"
proof -
  from assms(2) obtain r st1 where
    p: "processDependency transform env spec moduleUrl im st = Some (r, st1)"
    and s: "st' = st1 \<or> (\<exists>w. st' = st1\<lparr>warnings := warnings st1 @ [w]\<rparr>)"
    by (auto simp: dependencyTask_def split: option.splits sum.splits prod.splits)
  from assms(1) p have "grows st st1" by (rule processDependency_grows)
  moreover from s have "grows st1 st'" by (auto intro: warn_grows)
  ultimately show ?thesis by (rule grows_trans)
qed

lemma dependencyTasks_grows:
  assumes "transformerGrows transform"
  shows "dependencyTasks transform env moduleUrl im specs acc st = Some (acc', st') \<Longrightarrow> grows st st'"
proof (induction specs arbitrary: acc st)
  case Nil
  then show ?case by simp
next
  case (Cons spec rest)
  from Cons.prems obtain acc1 st1 where
    t: "dependencyTask transform env moduleUrl im spec acc st = Some (acc1, st1)"
    and r: "dependencyTasks transform env moduleUrl im rest acc1 st1 = Some (acc', st')"
    by (auto split: option.splits)
  from assms t have "grows st st1" by (rule dependencyTask_grows)
  moreover from r have "grows st1 st'" by (rule Cons.IH)
  ultimately show ?case by (rule grows_trans)
qed

lemma processDependenciesParallel_grows:
  assumes "transformerGrows transform"
    and "processDependenciesParallel transform env o2t locals moduleUrl im st = Some (deps, st')"
  shows "grows st st'"
  using assms
  by (auto simp: processDependenciesParallel_def split: option.splits prod.splits
      dest: dependencyTasks_grows)

lemma clearOnEntry_grows: "grows st (clearOnEntry self u st)"
  by (simp add: clearOnEntry_def clearDenoCacheForUrl_grows)

lemma transformation_grows:
  assumes "transformerGrows transform" and "transformedModules st u = None"
    and "transformation transform env self u im st = Some (r, st')"
  shows "grows st st'"
proof (cases "beginTransformation env self u im st")
  case (Finished r1 st1)
  with assms(3) have "st' = st1" by (simp add: transformation_def)
  with Finished assms(2) show ?thesis by (auto dest: beginTransformation_Finished(1))
next
  case (Pending code cacheUrl o2t locals st1)
  with assms(3) obtain deps st2 where
    d: "processDependenciesParallel transform env o2t locals u im st1 = Some (deps, st2)"
    and c: "completeTransformation env u code cacheUrl deps st2 = (r, st')"
    by (auto simp: transformation_def split: option.splits)
  from assms(2) Pending have "grows st st1" by (rule beginTransformation_Pending(1))
  moreover from assms(1) d have "grows st1 st2" by (rule processDependenciesParallel_grows)
  moreover from c have "grows st2 st'" by (rule completeTransformation_grows(1))
  ultimately show ?thesis by (blast intro: grows_trans)
qed

lemma transformModule_Suc_cases:
  assumes "transformModule (Suc n) env self u im st = Some (r, st')"
  obtains (memo) "transformedModules (clearOnEntry self u st) u = Some (projr r)"
      and "r = Inr (projr r)" and "st' = clearOnEntry self u st"
  | (inflight) "transformedModules (clearOnEntry self u st) u = None"
      and "u \<in> processingModules (clearOnEntry self u st)"
      and "u \<notin> transformationPromises (clearOnEntry self u st)"
      and "r = Inr u" and "st' = clearOnEntry self u st"
  | (ran) st3 where "transformedModules (clearOnEntry self u st) u = None"
      and "u \<notin> processingModules (clearOnEntry self u st)"
      and "transformation (transformModule n env self) env self u im
             ((clearOnEntry self u st)
                \<lparr>processingModules := insert u (processingModules (clearOnEntry self u st)),
                 transformationPromises := insert u (transformationPromises (clearOnEntry self u st))\<rparr>)
           = Some (r, st3)"
      and "st' = st3\<lparr>processingModules := processingModules st3 - {u},
                       transformationPromises := transformationPromises st3 - {u}\<rparr>"
  using assms
  by (auto simp: Let_def split: option.splits if_splits)

lemma transformModule_grows:
  "transformModule n env self u im st = Some (r, st') \<Longrightarrow> grows st st'"
proof (induction n arbitrary: u im st r st')
  case 0
  then show ?case by simp
next
  case (Suc n)
  have tg: "transformerGrows (transformModule n env self)"
    unfolding transformerGrows_def using Suc.IH by blast
  from Suc.prems show ?case
  proof (cases rule: transformModule_Suc_cases)
    case memo
    then show ?thesis by (simp add: clearOnEntry_grows)
  next
    case inflight
    then show ?thesis by (simp add: clearOnEntry_grows)
  next
    case (ran st3)
    let ?st0 = "clearOnEntry self u st"
    let ?stm = "?st0\<lparr>processingModules := insert u (processingModules ?st0),
                     transformationPromises := insert u (transformationPromises ?st0)\<rparr>"
    have "grows ?stm st3"
      using tg _ ran(3) by (rule transformation_grows) (simp add: ran(1))
    then have "grows ?st0 st'"
      using ran(2) unfolding grows_def ran(4) by auto
    with clearOnEntry_grows show ?thesis by (rule grows_trans)
  qed
qed

lemma clearOnEntry_absorbed:
  assumes "grows (clearOnEntry self u st) st'"
  shows "clearOnEntry self u st' = st'"
proof (cases "clearDenoCache self \<and> protocol u = ''file:''")
  case True
  with assms have "u \<in> denoCacheCleared st'"
    by (auto simp: grows_def clearOnEntry_def clearDenoCacheForUrl_def)
  then have "insert u (denoCacheCleared st') = denoCacheCleared st'" by auto
  with True show ?thesis by (simp add: clearOnEntry_def clearDenoCacheForUrl_def)
next
  case False
  then show ?thesis by (auto simp: clearOnEntry_def)
qed

lemma transformation_registered:
  assumes "transformerGrows transform" and "transformedModules st u = None"
    and "transformation transform env self u im st = Some (Inr loc, st')"
  shows "transformedModules st' u = Some loc"
proof (cases "beginTransformation env self u im st")
  case (Finished r1 st1)
  with assms(3) have "r1 = Inr loc" "st' = st1" by (simp_all add: transformation_def)
  with Finished assms(2) show ?thesis by (auto dest: beginTransformation_Finished(2))
next
  case (Pending code cacheUrl o2t locals st1)
  with assms(3) obtain deps st2 where
    d: "processDependenciesParallel transform env o2t locals u im st1 = Some (deps, st2)"
    and c: "completeTransformation env u code cacheUrl deps st2 = (Inr loc, st')"
    by (auto simp: transformation_def split: option.splits)
  from assms(2) Pending have "transformedModules st1 u = Some cacheUrl"
    by (rule beginTransformation_Pending(2))
  moreover from assms(1) d have "grows st1 st2" by (rule processDependenciesParallel_grows)
  ultimately have "transformedModules st2 u = Some cacheUrl" by (simp add: grows_def)
  moreover from c have "transformedModules st' = transformedModules st2" "loc = cacheUrl"
    by (auto dest: completeTransformation_grows(2,3))
  ultimately show ?thesis by simp
qed

lemma transformModule_transformerGrows: "transformerGrows (transformModule n env self)"
  unfolding transformerGrows_def using transformModule_grows by blast

text \<open>A request that returned a location is answered the same way ever after.\<close>

lemma transformModule_memoized:
  assumes "transformModule n env self u im st = Some (Inr loc, st')"
  shows "transformModule (Suc m) env self u im' st' = Some (Inr loc, st')"
proof (cases n)
  case 0
  with assms show ?thesis by simp
next
  case (Suc k)
  let ?st0 = "clearOnEntry self u st"
  from assms[unfolded Suc] show ?thesis
  proof (cases rule: transformModule_Suc_cases)
    case memo
    have "clearOnEntry self u st' = st'"
      unfolding memo(3) by (rule clearOnEntry_absorbed) (rule grows_refl)
    with memo show ?thesis by (simp add: Let_def)
  next
    case inflight
    have "clearOnEntry self u st' = st'"
      unfolding inflight(5) by (rule clearOnEntry_absorbed) (rule grows_refl)
    with inflight show ?thesis by (simp add: Let_def)
  next
    case (ran st3)
    let ?stm = "?st0\<lparr>processingModules := insert u (processingModules ?st0),
                     transformationPromises := insert u (transformationPromises ?st0)\<rparr>"
    have tm: "transformedModules ?stm u = None" by (simp add: ran(1))
    have reg: "transformedModules st3 u = Some loc"
      using transformModule_transformerGrows tm ran(3) by (rule transformation_registered)
    have "grows ?stm st3"
      using transformModule_transformerGrows tm ran(3) by (rule transformation_grows)
    then have "grows ?st0 st'"
      using ran(2) unfolding grows_def ran(4) by auto
    then have "clearOnEntry self u st' = st'" by (rule clearOnEntry_absorbed)
    moreover have "transformedModules st' u = Some loc" using reg by (simp add: ran(4))
    ultimately show ?thesis by (simp add: Let_def)
  qed
qed


section \<open>Termination\<close>

lemma grows_inFlightRegistered:
  "grows st st' \<Longrightarrow> inFlightRegistered st \<Longrightarrow> inFlightRegistered st'"
  unfolding grows_def inFlightRegistered_def by (auto simp: dom_def)

lemma grows_unregistered:
  assumes "grows st st'" and "finite (readable env)"
  shows "unregistered env st' \<le> unregistered env st"
proof -
  from assms(1) have "dom (transformedModules st) \<subseteq> dom (transformedModules st')"
    unfolding grows_def by (auto simp: dom_def)
  then have "readable env - dom (transformedModules st') \<subseteq> readable env - dom (transformedModules st)"
    by blast
  with assms(2) show ?thesis
    unfolding unregistered_def by (intro card_mono) auto
qed

lemma dependencyTask_returns:
  assumes ret: "\<And>u s. inFlightRegistered s \<Longrightarrow> unregistered env s < n
                  \<Longrightarrow> \<exists>r s'. transform u im s = Some (r, s')"
    and "inFlightRegistered st" and "unregistered env st < n"
  shows "\<exists>acc' st'. dependencyTask transform env moduleUrl im spec acc st = Some (acc', st')"
proof -
  have "\<exists>r st1. processDependency transform env spec moduleUrl im st = Some (r, st1)"
    using ret[OF assms(2,3)] by (auto simp: processDependency_def split: option.splits)
  then show ?thesis
    by (auto simp: dependencyTask_def split: option.splits sum.splits prod.splits)
qed

lemma dependencyTasks_returns:
  assumes tg: "transformerGrows transform"
    and ret: "\<And>u s. inFlightRegistered s \<Longrightarrow> unregistered env s < n
                  \<Longrightarrow> \<exists>r s'. transform u im s = Some (r, s')"
    and fin: "finite (readable env)"
  shows "inFlightRegistered st \<Longrightarrow> unregistered env st < n
         \<Longrightarrow> \<exists>acc' st'. dependencyTasks transform env moduleUrl im specs acc st = Some (acc', st')"
proof (induction specs arbitrary: acc st)
  case Nil
  then show ?case by simp
next
  case (Cons spec rest)
  from dependencyTask_returns[of env n transform im st moduleUrl spec acc, OF ret Cons.prems]
  obtain acc1 st1 where
    t: "dependencyTask transform env moduleUrl im spec acc st = Some (acc1, st1)"
    by blast
  from tg t have g: "grows st st1" by (rule dependencyTask_grows)
  have "inFlightRegistered st1" using g Cons.prems(1) by (rule grows_inFlightRegistered)
  moreover have "unregistered env st1 < n"
    using grows_unregistered[OF g fin] Cons.prems(2) by simp
  ultimately obtain acc' st' where
    "dependencyTasks transform env moduleUrl im rest acc1 st1 = Some (acc', st')"
    using Cons.IH by blast
  with t show ?case by simp
qed

lemma processDependenciesParallel_returns:
  assumes "transformerGrows transform"
    and "\<And>u s. inFlightRegistered s \<Longrightarrow> unregistered env s < n
                  \<Longrightarrow> \<exists>r s'. transform u im s = Some (r, s')"
    and "finite (readable env)"
    and "inFlightRegistered st" and "unregistered env st < n"
  shows "\<exists>deps st'. processDependenciesParallel transform env o2t locals moduleUrl im st = Some (deps, st')"
proof -
  from dependencyTasks_returns[OF assms, of moduleUrl "dependencySpecifiers o2t locals" "([], None)"]
  obtain acc' st' where
    "dependencyTasks transform env moduleUrl im (dependencySpecifiers o2t locals) ([], None) st
       = Some (acc', st')"
    by blast
  then show ?thesis
    by (cases acc'; cases "snd acc'") (auto simp: processDependenciesParallel_def)
qed

lemma transformModule_returns:
  assumes fin: "finite (readable env)"
  shows "inFlightRegistered st \<Longrightarrow> unregistered env st < n
         \<Longrightarrow> \<exists>r st'. transformModule n env self u im st = Some (r, st')"
proof (induction n arbitrary: u st)
  case 0
  then show ?case by simp
next
  case (Suc n)
  let ?st0 = "clearOnEntry self u st"
  let ?stm = "?st0\<lparr>processingModules := insert u (processingModules ?st0),
                   transformationPromises := insert u (transformationPromises ?st0)\<rparr>"
  have tm0: "transformedModules ?st0 = transformedModules st"
    and pm0: "processingModules ?st0 = processingModules st"
    by (simp_all add: clearOnEntry_def clearDenoCacheForUrl_def)
  show ?case
  proof (cases "transformedModules ?st0 u")
    case (Some cached)
    then show ?thesis by (simp add: Let_def)
  next
    case None
    then have notin: "u \<notin> processingModules ?st0"
      using Suc.prems(1) unfolding inFlightRegistered_def tm0 pm0 by (auto simp: dom_def)
    have "\<exists>r st3. transformation (transformModule n env self) env self u im ?stm = Some (r, st3)"
    proof (cases "beginTransformation env self u im ?stm")
      case (Finished r st1)
      then show ?thesis by (simp add: transformation_def)
    next
      case (Pending code cacheUrl o2t locals st1)
      then have st1: "st1 = ?stm\<lparr>reads := reads ?stm @ [u],
                         transformedModules := (transformedModules ?stm)(u \<mapsto> cacheUrl)\<rparr>"
        and rd: "u \<in> readable env"
        by (cases rule: beginTransformation_cases; auto simp: readable_def)+
      have inv1: "inFlightRegistered st1"
        using Suc.prems(1) unfolding inFlightRegistered_def st1 by (auto simp: tm0 pm0)
      have eq: "readable env - dom (transformedModules st1)
              = (readable env - dom (transformedModules st)) - {u}"
        unfolding st1 by (auto simp: tm0)
      have mem: "u \<in> readable env - dom (transformedModules st)"
        using rd None by (auto simp: tm0)
      have "finite (readable env - dom (transformedModules st))"
        using fin by simp
      from card_Diff1_less[OF this mem] have "unregistered env st1 < unregistered env st"
        unfolding unregistered_def eq .
      with Suc.prems(2) have m1: "unregistered env st1 < n" by simp
      have "\<exists>deps st2. processDependenciesParallel (transformModule n env self) env o2t locals
                            u im st1 = Some (deps, st2)"
      proof (rule processDependenciesParallel_returns[OF transformModule_transformerGrows _ fin inv1 m1])
        fix u' s
        assume "inFlightRegistered s" "unregistered env s < n"
        then show "\<exists>r s'. transformModule n env self u' im s = Some (r, s')"
          by (rule Suc.IH)
      qed
      then obtain deps st2 where
        "processDependenciesParallel (transformModule n env self) env o2t locals u im st1
           = Some (deps, st2)"
        by blast
      with Pending show ?thesis
        by (cases "completeTransformation env u code cacheUrl deps st2")
           (simp add: transformation_def)
    qed
    then obtain r st3 where
      "transformation (transformModule n env self) env self u im ?stm = Some (r, st3)"
      by blast
    with None notin show ?thesis by (simp add: Let_def)
  qed
qed

section \<open>Cycles, memoization and the marker of a module in flight\<close>

lemma readable_demoEnv:
  "readable (demoEnv disk) \<subseteq> (\<lambda>path. ''file://'' @ path) ` fst ` set disk"
proof
  fix u
  assume "u \<in> readable (demoEnv disk)"
  then obtain code where c: "moduleContent (demoEnv disk) u = Inr code"
    by (auto simp: readable_def)
  then have f: "protocol u = ''file:''"
    by (auto simp: moduleContent_def demoEnv_def split: if_splits)
  with c have p: "prefix ''file://'' u" and m: "map_of disk (drop 7 u) \<noteq> None"
    by (auto simp: moduleContent_def demoEnv_def split: if_splits option.splits)
  from p have "u = ''file://'' @ drop 7 u"
    by (auto simp: prefix_def)
  moreover from m have "drop 7 u \<in> fst ` set disk"
    by (auto dest: map_of_SomeD intro: rev_image_eqI)
  ultimately show "u \<in> (\<lambda>path. ''file://'' @ path) ` fst ` set disk"
    by (metis image_eqI)
qed

lemma finite_readable_demoEnv: "finite (readable (demoEnv disk))"
  by (rule finite_subset[OF readable_demoEnv]) simp

lemma unregistered_demoEnv: "unregistered (demoEnv disk) st \<le> length disk"
proof -
  have "card (readable (demoEnv disk) - dom (transformedModules st))
          \<le> card ((\<lambda>path. ''file://'' @ path) ` fst ` set disk)"
    by (rule card_mono) (use readable_demoEnv in auto)
  also have "\<dots> \<le> card (fst ` set disk)" by (rule card_image_le) simp
  also have "\<dots> \<le> card (set disk)" by (rule card_image_le) simp
  also have "\<dots> \<le> length disk" by (rule card_length)
  finally show ?thesis by (simp add: unregistered_def)
qed



text \<open>
  The cycle of the example, run: \<open>a.ts\<close> and \<open>b.ts\<close> import each other, and each cached file
  ends up importing the cached file of the other.
\<close>

lemma cyclic_imports_example:
  "map_option (\<lambda>(r, st). (r, transformedModules st ''file:///proj/b.ts'',
                          files st ''/cache/file____proj_a.ts'',
                          files st ''/cache/file____proj_b.ts'', reads st,
                          processingModules st))
     (transformModule 3 (demoEnv cycleDisk) demoImporter ''file:///proj/a.ts'' None
        (initialState :: string state))
   = Some (Inr ''file:///cache/file____proj_a.ts'',
           Some ''file:///cache/file____proj_b.ts'',
           Some (''// file:///proj/a.ts'' @ [CHR 0x0A] @ ''import \"file:///cache/file____proj_b.ts\"''),
           Some (''// file:///proj/b.ts'' @ [CHR 0x0A] @ ''import \"file:///cache/file____proj_a.ts\"''),
           [''file:///proj/a.ts'', ''file:///proj/b.ts''], {})"
  by (simp add: eval_nat_numeral engine_defs demo_defs cycleDisk_def Let_def)

lemma cacheModule_location:
  "cacheModule env self u code im st = (Inr loc, st')
   \<Longrightarrow> \<exists>code'. getCacheUrl env self u code' im = Inr loc"
  by (auto simp: cacheModule_def Let_def split: sum.splits option.splits prod.splits)

lemma transformation_location:
  assumes "transformation transform env self u im st = Some (Inr loc, st')"
  shows "\<exists>code. getCacheUrl env self u code im = Inr loc"
proof (cases "beginTransformation env self u im st")
  case (Finished r1 st1)
  with assms have "beginTransformation env self u im st = Finished (Inr loc) st'"
    by (simp add: transformation_def)
  then show ?thesis
    by (cases rule: beginTransformation_cases) (auto dest: cacheModule_location)
next
  case (Pending code cacheUrl o2t locals st1)
  with assms obtain deps st2 where
    "completeTransformation env u code cacheUrl deps st2 = (Inr loc, st')"
    by (auto simp: transformation_def split: option.splits)
  then have "loc = cacheUrl" by (auto dest: completeTransformation_grows(3))
  moreover from Pending have "getCacheUrl env self u code im = Inr cacheUrl"
    by (cases rule: beginTransformation_cases) auto
  ultimately show ?thesis by blast
qed






text \<open>
  C7: a call that starts a transformation (the module is neither registered nor in
  flight) and returns, with a location or with an error, leaves the module neither in
  \<open>processingModules\<close> nor among the pending promises, and the set of modules in flight is
  what it was before the call.
\<close>

theorem in_flight_marker_is_removed:
  assumes "transformModule n env self u im st = Some (r, st')"
    and "transformedModules st u = None"
    and "u \<notin> processingModules st"
  shows "u \<notin> processingModules st' \<and> u \<notin> transformationPromises st'
         \<and> processingModules st' = processingModules st"
proof -
  from assms(1) have "grows st st'" by (rule transformModule_grows)
  then have same: "processingModules st' = processingModules st" by (simp add: grows_def)
  have f0: "transformedModules (clearOnEntry self u st) u = None"
    "u \<notin> processingModules (clearOnEntry self u st)"
    using assms(2,3) by (simp_all add: clearOnEntry_def clearDenoCacheForUrl_def)
  from assms(1) obtain k where n: "n = Suc k" by (cases n) auto
  from assms(1)[unfolded n] have "u \<notin> transformationPromises st'"
  proof (cases rule: transformModule_Suc_cases)
    case (ran st3)
    then show ?thesis by simp
  qed (use f0 in auto)
  with same assms(3) show ?thesis by simp
qed

theorem in_flight_marker_is_removed_witness:
  "\<exists>st'.
     transformModule (Suc 0) (demoEnv []) demoImporter ''file:///proj/missing.ts'' None
       (initialState :: string state) = Some (Inl (External ''NotFound''), st')
     \<and> transformedModules (initialState :: string state) ''file:///proj/missing.ts'' = None
     \<and> ''file:///proj/missing.ts'' \<notin> processingModules (initialState :: string state)
     \<and> ''file:///proj/missing.ts'' \<notin> processingModules st'
     \<and> ''file:///proj/missing.ts'' \<notin> transformationPromises st'
     \<and> processingModules st' = processingModules (initialState :: string state)"
proof -
  have "\<exists>st'. transformModule (Suc 0) (demoEnv []) demoImporter ''file:///proj/missing.ts'' None
       (initialState :: string state) = Some (Inl (External ''NotFound''), st')"
    by (simp add: engine_defs demo_defs Let_def)
  then obtain st' where
    run: "transformModule (Suc 0) (demoEnv []) demoImporter ''file:///proj/missing.ts'' None
       (initialState :: string state) = Some (Inl (External ''NotFound''), st')"
    by blast
  have t: "transformedModules (initialState :: string state) ''file:///proj/missing.ts'' = None"
    and p: "''file:///proj/missing.ts'' \<notin> processingModules (initialState :: string state)"
    by (simp_all add: initialState_def)
  from in_flight_marker_is_removed[OF run t p] run t p show ?thesis by blast
qed

section \<open>Dependencies that fail\<close>

lemma dependencyTasks_append:
  "dependencyTasks transform env moduleUrl im (xs @ ys) acc st =
     (case dependencyTasks transform env moduleUrl im xs acc st of
        None \<Rightarrow> None
      | Some (acc1, st1) \<Rightarrow> dependencyTasks transform env moduleUrl im ys acc1 st1)"
  by (induction xs arbitrary: acc st) (auto split: option.splits)

lemma dependencyTask_rejected:
  assumes "dependencyTask transform env moduleUrl im spec acc st = Some (acc', st')"
    and "isRelativeOrFileUrl spec \<longrightarrow> newURL env spec (Some moduleUrl) \<noteq> None"
  shows "snd acc' = snd acc"
  using assms
  by (auto simp: dependencyTask_def split: option.splits sum.splits prod.splits if_splits)

lemma dependencyTasks_rejected:
  assumes "\<forall>s \<in> set specs. isRelativeOrFileUrl s \<longrightarrow> newURL env s (Some moduleUrl) \<noteq> None"
  shows "dependencyTasks transform env moduleUrl im specs acc st = Some (acc', st')
         \<Longrightarrow> snd acc' = snd acc"
  using assms
proof (induction specs arbitrary: acc st)
  case Nil
  then show ?case by simp
next
  case (Cons spec rest)
  from Cons.prems(1) obtain acc1 st1 where
    t: "dependencyTask transform env moduleUrl im spec acc st = Some (acc1, st1)"
    and r: "dependencyTasks transform env moduleUrl im rest acc1 st1 = Some (acc', st')"
    by (auto split: option.splits)
  from t Cons.prems(2) have "snd acc1 = snd acc" by (intro dependencyTask_rejected) auto
  moreover from r Cons.prems(2) have "snd acc' = snd acc1" by (intro Cons.IH) auto
  ultimately show ?case by simp
qed

lemma dependencyTask_other_entries:
  assumes "dependencyTask transform env moduleUrl im spec acc st = Some (acc', st')"
    and "other \<noteq> spec"
  shows "map_of (fst acc') other = map_of (fst acc) other"
  using assms
  by (auto simp: dependencyTask_def update_conv' split: option.splits sum.splits prod.splits if_splits)

lemma dependencyTasks_other_entries:
  "dependencyTasks transform env moduleUrl im specs acc st = Some (acc', st')
   \<Longrightarrow> other \<notin> set specs \<Longrightarrow> map_of (fst acc') other = map_of (fst acc) other"
proof (induction specs arbitrary: acc st)
  case Nil
  then show ?case by simp
next
  case (Cons spec rest)
  from Cons.prems(1) obtain acc1 st1 where
    t: "dependencyTask transform env moduleUrl im spec acc st = Some (acc1, st1)"
    and r: "dependencyTasks transform env moduleUrl im rest acc1 st1 = Some (acc', st')"
    by (auto split: option.splits)
  from t Cons.prems(2) have "map_of (fst acc1) other = map_of (fst acc) other"
    by (intro dependencyTask_other_entries) auto
  moreover from r Cons.prems(2) have "map_of (fst acc') other = map_of (fst acc1) other"
    by (intro Cons.IH) auto
  ultimately show ?case by simp
qed

text \<open>
  What \<^verbatim>\<open>#processDependenciesParallel\<close> does when every fallback URL can be built: each
  dependency is settled on its own. Take any dependency of the module and the result of
  its recursive transformation at its turn. The fan-in does not reject, whatever failed;
  a dependency whose transformation failed is mapped to its resolved specifier (a
  relative one resolved against the parent's URL) and a warning is logged; a dependency
  whose transformation succeeded is mapped to its cache location, whether or not others
  failed. The parent then ends with its own cache location, and its cache file holds the
  banner and the text that the second pass rewrote with these mappings, as soon as that
  pass and the write succeed.
\<close>

lemma settled_dependency_entry:
  assumes tasks: "dependencySpecifiers originalToTransformed allLocal = before @ spec # after"
    and later: "spec \<notin> set after"
    and resolvable: "\<forall>s \<in> set (dependencySpecifiers originalToTransformed allLocal).
                       isRelativeOrFileUrl s \<longrightarrow> newURL env s (Some moduleUrl) \<noteq> None"
    and before: "dependencyTasks (transformModule n env self) env moduleUrl im before ([], None) st
                   = Some (acc1, st1)"
    and outcome: "processDependency (transformModule n env self) env spec moduleUrl im st1
                   = Some (r, st2)"
    and run: "processDependenciesParallel (transformModule n env self) env originalToTransformed
                allLocal moduleUrl im st = Some (deps, st')"
  shows "\<exists>urls. deps = Inr urls
           \<and> (case r of
                Inr cachedUrl \<Rightarrow> map_of urls spec = Some cachedUrl
              | Inl err \<Rightarrow>
                  map_of urls spec
                    = (if isRelativeOrFileUrl spec then newURL env spec (Some moduleUrl)
                       else Some spec)
                  \<and> (''Failed to transform '' @ spec @ '': '' @ message err) \<in> set (warnings st'))
           \<and> urls \<noteq> []
           \<and> (\<forall>code cacheUrl finalCode calls.
                  replaceImports env moduleUrl code (cachedOrSame urls) = Inr (finalCode, calls)
                  \<and> ensureDir env (pathJoin env (fromFileUrl env cacheUrl) ''..'') = None
                  \<and> writeTextFile env (fromFileUrl env cacheUrl)
                        (createOriginalUrlComment env moduleUrl @ finalCode) = None
                  \<longrightarrow> completeTransformation env moduleUrl code cacheUrl deps st'
                        = (Inr cacheUrl,
                           st'\<lparr>files := (files st')
                                  (fromFileUrl env cacheUrl
                                     \<mapsto> createOriginalUrlComment env moduleUrl @ finalCode)\<rparr>))"
proof -
  let ?T = "transformModule n env self"
  from run obtain urls rejected where
    all: "dependencyTasks ?T env moduleUrl im (before @ spec # after) ([], None) st
            = Some ((urls, rejected), st')"
    and deps: "deps = (case rejected of None \<Rightarrow> Inr urls | Some e \<Rightarrow> Inl e)"
    by (auto simp: processDependenciesParallel_def tasks split: option.splits prod.splits)
  from all resolvable have "rejected = None"
    by (auto simp: tasks dest!: dependencyTasks_rejected[rotated])
  with deps have d: "deps = Inr urls" by simp
  from all before obtain acc2 st3 where
    task: "dependencyTask ?T env moduleUrl im spec acc1 st1 = Some (acc2, st3)"
    and rest: "dependencyTasks ?T env moduleUrl im after acc2 st3 = Some ((urls, rejected), st')"
    by (auto simp: dependencyTasks_append split: option.splits)
  from rest later have keep: "map_of urls spec = map_of (fst acc2) spec"
    by (auto dest: dependencyTasks_other_entries)
  have g: "grows st3 st'"
    using transformModule_transformerGrows rest by (rule dependencyTasks_grows)
  have res: "isRelativeOrFileUrl spec \<longrightarrow> newURL env spec (Some moduleUrl) \<noteq> None"
    using resolvable by (simp add: tasks)
  have edge: "case r of
                Inr cachedUrl \<Rightarrow> map_of urls spec = Some cachedUrl
              | Inl err \<Rightarrow>
                  map_of urls spec
                    = (if isRelativeOrFileUrl spec then newURL env spec (Some moduleUrl)
                       else Some spec)
                  \<and> (''Failed to transform '' @ spec @ '': '' @ message err) \<in> set (warnings st')"
  proof (cases r)
    case (Inr cachedUrl)
    with task outcome have "map_of (fst acc2) spec = Some cachedUrl"
      by (auto simp: dependencyTask_def update_conv')
    with keep Inr show ?thesis by simp
  next
    case (Inl err)
    with task outcome res have
      "map_of (fst acc2) spec
         = (if isRelativeOrFileUrl spec then newURL env spec (Some moduleUrl) else Some spec)"
      and "(''Failed to transform '' @ spec @ '': '' @ message err) \<in> set (warnings st3)"
      by (auto simp: dependencyTask_def update_conv' split: option.splits if_splits)
    moreover from g have "set (warnings st3) \<subseteq> set (warnings st')" by (simp add: grows_def)
    ultimately show ?thesis using keep Inl by auto
  qed
  from edge res have entry: "map_of urls spec \<noteq> None"
    by (cases r) (auto split: if_splits)
  then have nonempty: "urls \<noteq> []" by auto
  have parent: "completeTransformation env moduleUrl code cacheUrl deps st'
                  = (Inr cacheUrl,
                     st'\<lparr>files := (files st')
                            (fromFileUrl env cacheUrl
                               \<mapsto> createOriginalUrlComment env moduleUrl @ finalCode)\<rparr>)"
    if "replaceImports env moduleUrl code (cachedOrSame urls) = Inr (finalCode, calls)
        \<and> ensureDir env (pathJoin env (fromFileUrl env cacheUrl) ''..'') = None
        \<and> writeTextFile env (fromFileUrl env cacheUrl)
              (createOriginalUrlComment env moduleUrl @ finalCode) = None"
    for code cacheUrl finalCode calls
    using that d nonempty by (simp add: completeTransformation_def writeToCache_def Let_def)
  from d edge nonempty parent show ?thesis by blast
qed

lemma settled_dependency_entry_example:
  "\<exists>acc1 st1 st2 deps st'.
     dependencySpecifiers
       [(''./x.ts'', ''./x.ts''), (''./missing.ts'', ''./missing.ts''), (''./y.ts'', ''./y.ts'')]
       [''./x.ts'', ''./missing.ts'', ''./y.ts'']
       = [''./x.ts''] @ ''./missing.ts'' # [''./y.ts'']
     \<and> ''./missing.ts'' \<notin> set [''./y.ts'']
     \<and> dependencyTasks (transformModule (Suc 0) (demoEnv brokenDisk) demoImporter)
           (demoEnv brokenDisk) ''file:///proj/p.ts'' None [''./x.ts''] ([], None)
           (initialState :: string state) = Some (acc1, st1)
     \<and> processDependency (transformModule (Suc 0) (demoEnv brokenDisk) demoImporter)
           (demoEnv brokenDisk) ''./missing.ts'' ''file:///proj/p.ts'' None st1
         = Some (Inl (External ''NotFound''), st2)
     \<and> processDependenciesParallel (transformModule (Suc 0) (demoEnv brokenDisk) demoImporter)
           (demoEnv brokenDisk)
           [(''./x.ts'', ''./x.ts''), (''./missing.ts'', ''./missing.ts''), (''./y.ts'', ''./y.ts'')]
           [''./x.ts'', ''./missing.ts'', ''./y.ts''] ''file:///proj/p.ts'' None initialState
         = Some (deps, st')
     \<and> (\<exists>urls. deps = Inr urls
           \<and> map_of urls ''./missing.ts'' = Some ''file:///proj/missing.ts''
           \<and> ''Failed to transform ./missing.ts: NotFound'' \<in> set (warnings st'))"
proof -
  let ?env = "demoEnv brokenDisk"
  let ?T = "transformModule (Suc 0) ?env demoImporter"
  let ?o2t = "[(''./x.ts'', ''./x.ts''), (''./missing.ts'', ''./missing.ts''), (''./y.ts'', ''./y.ts'')]"
  let ?locals = "[''./x.ts'', ''./missing.ts'', ''./y.ts'']"
  have tasks: "dependencySpecifiers ?o2t ?locals = [''./x.ts''] @ ''./missing.ts'' # [''./y.ts'']"
    by (simp add: dependencySpecifiers_def isRelativeOrFileUrl_def)
  have later: "''./missing.ts'' \<notin> set [''./y.ts'']"
    by simp
  have resolvable: "\<forall>s \<in> set (dependencySpecifiers ?o2t ?locals).
      isRelativeOrFileUrl s \<longrightarrow> newURL ?env s (Some ''file:///proj/p.ts'') \<noteq> None"
    unfolding tasks by (simp add: demo_defs brokenDisk_def)
  have "\<exists>acc1 st1 st2 deps st'.
      dependencyTasks ?T ?env ''file:///proj/p.ts'' None [''./x.ts''] ([], None)
        (initialState :: string state) = Some (acc1, st1)
      \<and> processDependency ?T ?env ''./missing.ts'' ''file:///proj/p.ts'' None st1
          = Some (Inl (External ''NotFound''), st2)
      \<and> processDependenciesParallel ?T ?env ?o2t ?locals ''file:///proj/p.ts'' None initialState
          = Some (deps, st')"
    by (simp add: engine_defs demo_defs brokenDisk_def Let_def)
  then obtain acc1 st1 st2 deps st' where
    before: "dependencyTasks ?T ?env ''file:///proj/p.ts'' None [''./x.ts''] ([], None)
        (initialState :: string state) = Some (acc1, st1)"
    and outcome: "processDependency ?T ?env ''./missing.ts'' ''file:///proj/p.ts'' None st1
          = Some (Inl (External ''NotFound''), st2)"
    and run: "processDependenciesParallel ?T ?env ?o2t ?locals ''file:///proj/p.ts'' None initialState
          = Some (deps, st')"
    by blast
  from settled_dependency_entry[OF tasks later resolvable before outcome run]
  have "\<exists>urls. deps = Inr urls
           \<and> map_of urls ''./missing.ts'' = Some ''file:///proj/missing.ts''
           \<and> ''Failed to transform ./missing.ts: NotFound'' \<in> set (warnings st')"
    by (auto simp: isRelativeOrFileUrl_def demo_defs brokenDisk_def)
  with tasks later before outcome run show ?thesis by blast
qed

text \<open>
  The example run as a whole: the parent \<open>p.ts\<close> is produced, its imports of \<open>x.ts\<close> and
  \<open>y.ts\<close> go to their cache files, the import of the unreadable module goes to its
  resolved URL, and one warning is logged.
\<close>

lemma failed_dependency_example:
  "map_option (\<lambda>(r, st). (r, warnings st, files st ''/cache/file____proj_p.ts''))
     (transformModule 2 (demoEnv brokenDisk) demoImporter ''file:///proj/p.ts'' None
        (initialState :: string state))
   = Some (Inr ''file:///cache/file____proj_p.ts'',
           [''Failed to transform ./missing.ts: NotFound''],
           Some (''// file:///proj/p.ts'' @ [CHR 0x0A]
                 @ ''import \"file:///cache/file____proj_x.ts\"'' @ [CHR 0x0A]
                 @ ''import \"file:///proj/missing.ts\"'' @ [CHR 0x0A]
                 @ ''import \"file:///cache/file____proj_y.ts\"''))"
  by (simp add: eval_nat_numeral engine_defs demo_defs brokenDisk_def Let_def)


text \<open>
  C6: the handler that catches a failed dependency builds the fallback with a
  \<^verbatim>\<open>new URL\<close> of its own, and that one is not caught. The module \<open>p.ts\<close> imports \<open>./x.ts\<close>,
  \<open>./missing.ts\<close> and \<open>//[\<close>. The transformation of \<open>./missing.ts\<close> fails and is caught, with
  its warning; for \<open>//[\<close> both \<^verbatim>\<open>#processDependency\<close> and the handler throw, the fan-in
  rejects, and the parent ends in that error: its location is registered, its cache file
  is not written. (The text of the error is the model's; the platform's names the input.)
\<close>

theorem unbuildable_fallback_fails_parent:
  "map_option (\<lambda>(r, st). (r, warnings st, transformedModules st ''file:///proj/p.ts'',
                          files st ''/cache/file____proj_p.ts'',
                          files st ''/cache/file____proj_x.ts''))
     (transformModule 2 (demoEnv unparsableDisk) demoImporter ''file:///proj/p.ts'' None
        (initialState :: string state))
   = Some (Inl (TypeError ''Invalid URL''),
           [''Failed to transform ./missing.ts: NotFound''],
           Some ''file:///cache/file____proj_p.ts'',
           None,
           Some ''const x = 1'')"
  by (simp add: eval_nat_numeral engine_defs demo_defs unparsableDisk_def Let_def)

section \<open>The entry point: import maps, memory cache, resolution\<close>

lemma spread_Cons: "spread a ((k, v) # b) = spread (AList.update k v a) b"
  by (simp add: spread_def)

lemma map_of_spread:
  "distinct (map fst b) \<Longrightarrow>
   map_of (spread a b) k = (case map_of b k of Some v \<Rightarrow> Some v | None \<Rightarrow> map_of a k)"
proof (induction b arbitrary: a)
  case Nil
  then show ?case by (simp add: spread_def)
next
  case (Cons e b)
  obtain k' v' where e: "e = (k', v')" by (cases e)
  from Cons.prems have d: "distinct (map fst b)" and n: "k' \<notin> fst ` set b"
    by (auto simp: e)
  from n have "map_of b k' = None" by (simp add: map_of_eq_None_iff)
  with Cons.IH[OF d, of "AList.update k' v' a"] show ?case
    by (auto simp: e spread_Cons update_conv' split: option.splits)
qed




text \<open>
  C9: a specifier that is in the memory cache is answered from it, with the state as it
  was, whatever import map the call passes and whatever the fuel.
\<close>

theorem memory_cache_hit_ignores_import_map:
  "cache st specifier = Some loaded \<Longrightarrow>
   tsImport fuel env self specifier im st = Some (Inr loaded, st)"
  by (simp add: tsImport_def)

theorem memory_cache_hit_ignores_import_map_witness:
  "\<exists>loaded st'.
     tsImport (Suc 0) (demoEnv [(''/proj/m.ts'', ''const a = 1'')]) demoImporter
       ''file:///proj/m.ts'' (Some \<lparr> imports' = [(''@x'', ''A'')], scopes = None \<rparr>)
       (initialState :: string state) = Some (Inr loaded, st')
     \<and> cache st' ''file:///proj/m.ts'' = Some loaded
     \<and> tsImport 0 (demoEnv [(''/proj/m.ts'', ''const a = 1'')]) demoImporter
         ''file:///proj/m.ts'' (Some \<lparr> imports' = [(''@x'', ''B'')], scopes = None \<rparr>) st'
         = Some (Inr loaded, st')"
proof -
  have "\<exists>st'. tsImport (Suc 0) (demoEnv [(''/proj/m.ts'', ''const a = 1'')]) demoImporter
       ''file:///proj/m.ts'' (Some \<lparr> imports' = [(''@x'', ''A'')], scopes = None \<rparr>)
       (initialState :: string state) = Some (Inr ''const a = 1'', st')
       \<and> cache st' ''file:///proj/m.ts'' = Some ''const a = 1''"
    by (simp add: tsImport_def effectiveImportMapFor_def engine_defs demo_defs Let_def)
  then obtain st' where
    first: "tsImport (Suc 0) (demoEnv [(''/proj/m.ts'', ''const a = 1'')]) demoImporter
       ''file:///proj/m.ts'' (Some \<lparr> imports' = [(''@x'', ''A'')], scopes = None \<rparr>)
       (initialState :: string state) = Some (Inr ''const a = 1'', st')"
    and hit: "cache st' ''file:///proj/m.ts'' = Some ''const a = 1''"
    by blast
  from memory_cache_hit_ignores_import_map[OF hit] first hit show ?thesis by blast
qed

section \<open>What the importer resolves a specifier against\<close>

text \<open>
  Nothing below the entry point reads \<^verbatim>\<open>import.meta.url\<close> or the working directory of the
  process: every step of the engine is the same in an environment that differs in these
  two only.
\<close>

lemmas moved_congs =
  sum.case_cong option.case_cong prod.case_cong prepared.case_cong if_cong

lemma collectDependency_moved [simp]:
  "collectDependency (env\<lparr>importMetaUrl := b, cwd := d\<rparr>) = collectDependency env"
  by (intro ext) (simp add: collectDependency_def Let_def cong: moved_congs)

lemma collectReplacements_moved [simp]:
  "collectReplacements (env\<lparr>importMetaUrl := b, cwd := d\<rparr>) replacer deps acc
     = collectReplacements env replacer deps acc"
  by (induction deps arbitrary: acc) (simp_all cong: moved_congs)

lemma replaceImports_moved [simp]:
  "replaceImports (env\<lparr>importMetaUrl := b, cwd := d\<rparr>) = replaceImports env"
  by (intro ext) (simp add: replaceImports_def Let_def cong: moved_congs)

lemma readModuleContent_moved [simp]:
  "readModuleContent (env\<lparr>importMetaUrl := b, cwd := d\<rparr>) = readModuleContent env"
  by (intro ext) (simp add: readModuleContent_def moduleContent_def Let_def cong: moved_congs)

lemma transpileTypeScript_moved [simp]:
  "transpileTypeScript (env\<lparr>importMetaUrl := b, cwd := d\<rparr>) = transpileTypeScript env"
  by (intro ext) (simp add: transpileTypeScript_def Let_def cong: moved_congs)

lemma getCacheUrl_moved [simp]:
  "getCacheUrl (env\<lparr>importMetaUrl := b, cwd := d\<rparr>) = getCacheUrl env"
  by (intro ext) (simp add: getCacheUrl_def Let_def cong: moved_congs)

lemma writeToCache_moved [simp]:
  "writeToCache (env\<lparr>importMetaUrl := b, cwd := d\<rparr>) = writeToCache env"
  by (intro ext) (simp add: writeToCache_def Let_def cong: moved_congs)

lemma cacheModule_moved [simp]:
  "cacheModule (env\<lparr>importMetaUrl := b, cwd := d\<rparr>) = cacheModule env"
  by (intro ext) (simp add: cacheModule_def Let_def cong: moved_congs)

lemma beginTransformation_moved [simp]:
  "beginTransformation (env\<lparr>importMetaUrl := b, cwd := d\<rparr>) = beginTransformation env"
  by (intro ext) (simp add: beginTransformation_def Let_def cong: moved_congs)

lemma completeTransformation_moved [simp]:
  "completeTransformation (env\<lparr>importMetaUrl := b, cwd := d\<rparr>) = completeTransformation env"
  by (intro ext) (simp add: completeTransformation_def Let_def cong: moved_congs)

lemma processDependency_moved [simp]:
  "processDependency transform (env\<lparr>importMetaUrl := b, cwd := d\<rparr>)
     = processDependency transform env"
  by (intro ext) (simp add: processDependency_def Let_def cong: moved_congs)

lemma dependencyTask_moved [simp]:
  "dependencyTask transform (env\<lparr>importMetaUrl := b, cwd := d\<rparr>) = dependencyTask transform env"
  by (intro ext) (simp add: dependencyTask_def Let_def cong: moved_congs)

lemma dependencyTasks_moved [simp]:
  "dependencyTasks transform (env\<lparr>importMetaUrl := b, cwd := d\<rparr>) moduleUrl im specs acc st
     = dependencyTasks transform env moduleUrl im specs acc st"
  by (induction specs arbitrary: acc st) (simp_all cong: moved_congs)

lemma processDependenciesParallel_moved [simp]:
  "processDependenciesParallel transform (env\<lparr>importMetaUrl := b, cwd := d\<rparr>)
     = processDependenciesParallel transform env"
  by (intro ext) (simp add: processDependenciesParallel_def Let_def cong: moved_congs)

lemma transformation_moved [simp]:
  "transformation transform (env\<lparr>importMetaUrl := b, cwd := d\<rparr>) = transformation transform env"
  by (intro ext) (simp add: transformation_def Let_def cong: moved_congs)

lemma transformModule_moved:
  "transformModule n (env\<lparr>importMetaUrl := b, cwd := d\<rparr>) self = transformModule n env self"
proof (induction n)
  case 0
  show ?case by (intro ext) simp
next
  case (Suc n)
  show ?case by (intro ext) (simp add: Suc Let_def cong: moved_congs)
qed

lemma effectiveImportMapFor_moved [simp]:
  "effectiveImportMapFor (env\<lparr>importMetaUrl := b, cwd := d\<rparr>) = effectiveImportMapFor env"
  by (intro ext) (simp add: effectiveImportMapFor_def Let_def cong: moved_congs)

lemma tsImport_moved:
  assumes "newURL env specifier (Some b) = newURL env specifier (Some (importMetaUrl env))"
  shows "tsImport fuel (env\<lparr>importMetaUrl := b, cwd := d\<rparr>) self specifier im st
           = tsImport fuel env self specifier im st"
  using assms by (simp add: tsImport_def transformModule_moved Let_def cong: moved_congs)

lemma transformModule_registered:
  assumes "transformModule n env self u im st = Some (Inr loc, st')"
    and "u \<notin> processingModules st"
  shows "transformedModules st' u = Some loc"
proof -
  from assms(1) obtain k where n: "n = Suc k" by (cases n) auto
  have p0: "u \<notin> processingModules (clearOnEntry self u st)"
    using assms(2) by (simp add: clearOnEntry_def clearDenoCacheForUrl_def)
  from assms(1)[unfolded n] show ?thesis
  proof (cases rule: transformModule_Suc_cases)
    case memo
    then show ?thesis by simp
  next
    case inflight
    with p0 show ?thesis by simp
  next
    case (ran st3)
    have "transformedModules st3 u = Some loc"
      using transformModule_transformerGrows _ ran(3)
      by (rule transformation_registered) (simp add: ran(1))
    then show ?thesis by (simp add: ran(4))
  qed
qed

text \<open>
  C10: the specifier is resolved by \<^verbatim>\<open>new URL(specifier, import.meta.url)\<close> and by nothing else.
  The working directory of the process plays no part in an import. The URL of the
  importer's own file matters only as the base of that resolution, so a specifier that
  resolves the same against another base, as an absolute URL does, is imported the same.
  And an import that succeeds on a miss of the memory cache has transformed the module
  at the resolved URL and loaded its cache file.
\<close>

theorem import_resolves_against_import_meta_url:
  "tsImport fuel (env\<lparr>cwd := d\<rparr>) self specifier im st = tsImport fuel env self specifier im st
   \<and> (newURL env specifier (Some b) = newURL env specifier (Some (importMetaUrl env))
        \<longrightarrow> tsImport fuel (env\<lparr>importMetaUrl := b\<rparr>) self specifier im st
              = tsImport fuel env self specifier im st)
   \<and> (cache st specifier = None \<and> processingModules st = {}
        \<and> tsImport fuel env self specifier im st = Some (Inr loaded, st')
        \<longrightarrow> (\<exists>url transformedUrl.
               newURL env specifier (Some (importMetaUrl env)) = Some url
               \<and> transformedModules st' url = Some transformedUrl
               \<and> dynamicImport env transformedUrl (files st') = Inr loaded))"
proof (intro conjI impI)
  have "env\<lparr>importMetaUrl := importMetaUrl env, cwd := d\<rparr> = env\<lparr>cwd := d\<rparr>"
    by simp
  with tsImport_moved[of env specifier "importMetaUrl env" fuel d self im st]
  show "tsImport fuel (env\<lparr>cwd := d\<rparr>) self specifier im st
               = tsImport fuel env self specifier im st"
    by simp
next
  assume same: "newURL env specifier (Some b) = newURL env specifier (Some (importMetaUrl env))"
  have "env\<lparr>importMetaUrl := b, cwd := cwd env\<rparr> = env\<lparr>importMetaUrl := b\<rparr>"
    by simp
  with tsImport_moved[OF same, of fuel "cwd env" self im st]
  show "tsImport fuel (env\<lparr>importMetaUrl := b\<rparr>) self specifier im st
               = tsImport fuel env self specifier im st"
    by simp
next
  assume a: "cache st specifier = None \<and> processingModules st = {}
        \<and> tsImport fuel env self specifier im st = Some (Inr loaded, st')"
  then obtain url where url: "newURL env specifier (Some (importMetaUrl env)) = Some url"
    by (auto simp: tsImport_def split: option.splits)
  let ?st1 = "if clearDenoCache self then clearDenoCacheForUrl url st else st"
  from a url obtain effective transformedUrl st2 where
    t: "transformModule fuel env self url effective ?st1 = Some (Inr transformedUrl, st2)"
    and l: "dynamicImport env transformedUrl (files st2) = Inr loaded"
    and s: "st' = st2\<lparr>cache := (cache st2)(specifier \<mapsto> loaded)\<rparr>"
    by (auto simp: tsImport_def Let_def split: option.splits sum.splits prod.splits)
  have "url \<notin> processingModules ?st1"
    using a by (simp add: clearDenoCacheForUrl_def)
  with t have "transformedModules st2 url = Some transformedUrl"
    by (rule transformModule_registered)
  with url l s show "\<exists>url transformedUrl.
               newURL env specifier (Some (importMetaUrl env)) = Some url
               \<and> transformedModules st' url = Some transformedUrl
               \<and> dynamicImport env transformedUrl (files st') = Inr loaded"
    by simp
qed

theorem import_resolves_against_import_meta_url_witness:
  "newURL (demoEnv [(''/lib/main.ts'', ''const a = 1'')]) ''file:///lib/main.ts''
       (Some ''file:///elsewhere/mod.ts'')
     = newURL (demoEnv [(''/lib/main.ts'', ''const a = 1'')]) ''file:///lib/main.ts''
         (Some (importMetaUrl (demoEnv [(''/lib/main.ts'', ''const a = 1'')])))
   \<and> tsImport (Suc 0) ((demoEnv [(''/lib/main.ts'', ''const a = 1'')])
                        \<lparr>importMetaUrl := ''file:///elsewhere/mod.ts''\<rparr>)
         demoImporter ''file:///lib/main.ts'' None (initialState :: string state)
       = tsImport (Suc 0) (demoEnv [(''/lib/main.ts'', ''const a = 1'')])
           demoImporter ''file:///lib/main.ts'' None initialState
   \<and> tsImport (Suc 0) ((demoEnv [(''/lib/main.ts'', ''const a = 1'')])\<lparr>cwd := ''/lib''\<rparr>)
         demoImporter ''./main.ts'' None (initialState :: string state)
       = tsImport (Suc 0) (demoEnv [(''/lib/main.ts'', ''const a = 1'')])
           demoImporter ''./main.ts'' None initialState
   \<and> (\<exists>loaded st' transformedUrl.
         cache (initialState :: string state) ''./main.ts'' = None
         \<and> processingModules (initialState :: string state) = {}
         \<and> tsImport (Suc 0) (demoEnv [(''/lib/main.ts'', ''const a = 1'')]) demoImporter
               ''./main.ts'' None (initialState :: string state) = Some (Inr loaded, st')
         \<and> newURL (demoEnv [(''/lib/main.ts'', ''const a = 1'')]) ''./main.ts''
               (Some (importMetaUrl (demoEnv [(''/lib/main.ts'', ''const a = 1'')])))
             = Some ''file:///lib/main.ts''
         \<and> transformedModules st' ''file:///lib/main.ts'' = Some transformedUrl)"
proof -
  let ?env = "demoEnv [(''/lib/main.ts'', ''const a = 1'')]"
  have same: "newURL ?env ''file:///lib/main.ts'' (Some ''file:///elsewhere/mod.ts'')
                = newURL ?env ''file:///lib/main.ts'' (Some (importMetaUrl ?env))"
    by (simp add: demo_defs)
  have rel: "newURL ?env ''./main.ts'' (Some (importMetaUrl ?env)) = Some ''file:///lib/main.ts''"
    by (simp add: demo_defs)
  have c: "cache (initialState :: string state) ''./main.ts'' = None"
    and p: "processingModules (initialState :: string state) = {}"
    by (simp_all add: initialState_def)
  have "\<exists>st'. tsImport (Suc 0) ?env demoImporter ''./main.ts'' None (initialState :: string state)
                = Some (Inr ''const a = 1'', st')"
    by (simp add: tsImport_def effectiveImportMapFor_def engine_defs demo_defs Let_def)
  then obtain st' where
    run: "tsImport (Suc 0) ?env demoImporter ''./main.ts'' None (initialState :: string state)
            = Some (Inr ''const a = 1'', st')"
    by blast
  from import_resolves_against_import_meta_url
         [where fuel = "Suc 0" and env = ?env and d = "''/lib''" and self = demoImporter
            and specifier = "''./main.ts''" and im = None and st = initialState
            and b = "''file:///lib/ts_importer.ts''" and loaded = "''const a = 1''"
            and st' = st'] c p run rel
  have moved: "tsImport (Suc 0) (?env\<lparr>cwd := ''/lib''\<rparr>) demoImporter ''./main.ts'' None
                 (initialState :: string state)
               = tsImport (Suc 0) ?env demoImporter ''./main.ts'' None initialState"
    and reg: "\<exists>transformedUrl. transformedModules st' ''file:///lib/main.ts'' = Some transformedUrl"
    by auto
  from import_resolves_against_import_meta_url
         [where fuel = "Suc 0" and env = ?env and d = "''/work''" and self = demoImporter
            and specifier = "''file:///lib/main.ts''" and im = None
            and st = "initialState :: string state" and b = "''file:///elsewhere/mod.ts''"
            and loaded = "''const a = 1''" and st' = st'] same
  have based: "tsImport (Suc 0) (?env\<lparr>importMetaUrl := ''file:///elsewhere/mod.ts''\<rparr>)
                 demoImporter ''file:///lib/main.ts'' None (initialState :: string state)
               = tsImport (Suc 0) ?env demoImporter ''file:///lib/main.ts'' None initialState"
    by blast
  from same based moved c p run rel reg show ?thesis by blast
qed

end
